theory Spec2Isabelle
  imports Complex_Main "HOL-Library.Signed_Division"
begin

section \<open>OCPP 1.6 charging profiles (OCPP16ServiceUtils.ts)\<close>

text \<open>
  The functions of the class \<^verbatim>\<open>OCPP16ServiceUtils\<close> that handle charging profiles,
  composite schedules, availability, reservations and meter values. JavaScript numbers
  that hold identifiers, stack levels and second offsets are integers here; limits and
  measured values are reals.

  Modelled from the spec: the interfaces and enumerations of the types module (charging
  profile, schedule, connector status, reservation, sampled value template, error types,
  commands) are not in this file. The records and datatypes below hold the fields and
  values of the spec's data model that the code reads or writes.
\<close>

datatype OCPP16ChargingProfilePurposeType = CHARGE_POINT_MAX_PROFILE | TX_DEFAULT_PROFILE | TX_PROFILE

datatype OCPP16ChargingRateUnitType = WATT | AMPERE

text \<open>
  A schedule period is an object: schedules hold references to their periods, and the
  period objects live in a store, since the composition functions write to period
  objects that the caller's schedule still references.
\<close>

type_synonym ref = nat

record OCPP16ChargingSchedulePeriod =
  startPeriod :: int
  limit :: real
  numberPhases :: "nat option"

type_synonym periodStore = "ref \<Rightarrow> OCPP16ChargingSchedulePeriod"

text \<open>
  \<open>startSchedule\<close> is a Date (milliseconds since the epoch), \<open>duration\<close> is in seconds.
  Both are optional in the interface; every function below reads them through a non-null
  assertion (\<^verbatim>\<open>startSchedule!\<close>, \<^verbatim>\<open>duration!\<close>), so the model covers the schedules
  that have them.
\<close>

record 'p OCPP16ChargingSchedule =
  duration :: int
  startSchedule :: int
  chargingRateUnit :: OCPP16ChargingRateUnitType
  chargingSchedulePeriod :: "'p list"

text \<open>
  A schedule as an object of the program holds references (\<open>ref OCPP16ChargingSchedule\<close>);
  a schedule read out of the store holds the periods themselves.
\<close>

definition readSchedule :: "periodStore \<Rightarrow> ref OCPP16ChargingSchedule
    \<Rightarrow> OCPP16ChargingSchedulePeriod OCPP16ChargingSchedule" where
  "readSchedule h s = \<lparr>duration = duration s, startSchedule = startSchedule s,
     chargingRateUnit = chargingRateUnit s,
     chargingSchedulePeriod = map h (chargingSchedulePeriod s)\<rparr>"

record OCPP16ChargingProfile =
  chargingProfileId :: int
  stackLevel :: int
  chargingProfilePurpose :: OCPP16ChargingProfilePurposeType
  chargingSchedule :: "ref OCPP16ChargingSchedule"

text \<open>The payload fields that \<open>clearChargingProfiles\<close> reads; \<open>None\<close> is an absent field.\<close>

record ClearChargingProfileRequest =
  id' :: "int option"
  chargingProfilePurpose' :: "OCPP16ChargingProfilePurposeType option"
  stackLevel' :: "int option"

subsection \<open>Connectors and the station\<close>

text \<open>
  A JavaScript number that may have become \<^verbatim>\<open>NaN\<close> (by \<^verbatim>\<open>parseInt\<close> of a text
  without digits, and whatever is computed from it).
\<close>

datatype number = Num real | NaN

datatype OCPP16ChargePointStatus =
  Available | Preparing | Charging | SuspendedEVSE | SuspendedEV | Finishing | Reserved
  | Unavailable | Faulted

datatype OCPP16AvailabilityType = Inoperative | Operative

record Reservation =
  reservationId :: int
  connectorId :: nat
  idTag :: string
  expiryDate :: int

text \<open>
  The fields of \<^verbatim>\<open>ConnectorStatus\<close> that this file reads or writes. \<open>None\<close> is
  \<^verbatim>\<open>undefined\<close>.
\<close>

record ConnectorStatus =
  availability :: OCPP16AvailabilityType
  status :: "OCPP16ChargePointStatus option"
  transactionStarted :: "bool option"
  transactionId :: "int option"
  energyActiveImportRegisterValue :: "number option"
  transactionEnergyActiveImportRegisterValue :: "number option"
  chargingProfiles :: "OCPP16ChargingProfile list option"

datatype CurrentType = AC | DC

text \<open>
  The station: its connectors by id, \<^verbatim>\<open>powerDivider\<close>, the \<^verbatim>\<open>stationInfo\<close> fields
  read here (\<open>currentOutType = None\<close> is an absent or unknown value), the result of
  \<^verbatim>\<open>getNumberOfPhases()\<close>, the reservation accessor
  \<^verbatim>\<open>getReservationBy('connectorId', _)\<close>, and the status notifications sent so far.
\<close>

record ChargingStation =
  connectors :: "nat \<rightharpoonup> ConnectorStatus"
  powerDivider :: "int option"
  currentOutType :: "CurrentType option"
  numberOfPhases :: nat
  voltageOut :: real
  mainVoltageMeterValues :: bool
  phaseLineToLineVoltageMeterValues :: bool
  customValueLimitationMeterValues :: bool
  getReservationBy :: "nat \<Rightarrow> Reservation option"
  statusNotifications :: "(nat \<times> OCPP16ChargePointStatus) list"

text \<open>
  Modelled from the spec: \<^verbatim>\<open>ChargingStation.getConnectorStatus\<close> is not in this file; it
  is the ledger's \<^verbatim>\<open>get(connectorId)\<close>, undefined for an unknown id.
\<close>

definition getConnectorStatus :: "ChargingStation \<Rightarrow> nat \<Rightarrow> ConnectorStatus option" where
  "getConnectorStatus chargingStation cid = connectors chargingStation cid"

definition setConnectorStatus :: "ChargingStation \<Rightarrow> nat \<Rightarrow> ConnectorStatus \<Rightarrow> ChargingStation" where
  "setConnectorStatus chargingStation cid c =
     chargingStation\<lparr>connectors := (connectors chargingStation)(cid \<mapsto> c)\<rparr>"

datatype OCPP16MeterValueMeasurand =
  STATE_OF_CHARGE | VOLTAGE | POWER_ACTIVE_IMPORT | CURRENT_IMPORT | ENERGY_ACTIVE_IMPORT_REGISTER

text \<open>
  What the functions throw: a \<^verbatim>\<open>TypeError\<close> of the runtime (a property read or written
  on \<^verbatim>\<open>undefined\<close>), or an \<^verbatim>\<open>OCPPError\<close> with its error type, what its message
  reports, and its command.
\<close>

datatype ErrorType =
  NOT_IMPLEMENTED | NOT_SUPPORTED | INTERNAL_ERROR | PROPERTY_CONSTRAINT_VIOLATION
  | FORMATION_VIOLATION | OCCURRENCE_CONSTRAINT_VIOLATION

datatype OCPP16RequestCommand =
  BOOT_NOTIFICATION | STATUS_NOTIFICATION | HEARTBEAT | METER_VALUES | START_TRANSACTION
  | STOP_TRANSACTION | AUTHORIZE | DIAGNOSTICS_STATUS_NOTIFICATION
  | FIRMWARE_STATUS_NOTIFICATION

datatype errMsg =
  PowerDividerUndefined OCPP16MeterValueMeasurand
  | PowerDividerZeroOrBelow OCPP16MeterValueMeasurand int
  | UnknownCurrentOutType OCPP16MeterValueMeasurand

datatype error = TypeError | OCPPError ErrorType errMsg OCPP16RequestCommand

subsection \<open>Array.prototype.forEach\<close>

text \<open>
  \<^verbatim>\<open>forEach\<close> fixes the number of indices to visit when it starts (\<open>n\<close> below counts the
  ones left), visits index \<open>k\<close> only if the array still has it, and passes the element
  found there at that moment. The callback gets the element and the index and may change
  the array and the other state \<open>s\<close> it closes over.
\<close>

fun forEach :: "('a \<Rightarrow> nat \<Rightarrow> 'a list \<times> 's \<Rightarrow> 'a list \<times> 's) \<Rightarrow> nat \<Rightarrow> nat \<Rightarrow> 'a list \<times> 's \<Rightarrow> 'a list \<times> 's" where
  "forEach f 0 k (xs, s) = (xs, s)"
| "forEach f (Suc n) k (xs, s) =
     forEach f n (Suc k) (if k < length xs then f (xs ! k) k (xs, s) else (xs, s))"

text \<open>\<^verbatim>\<open>array.splice(index, 1)\<close>: the element at \<open>index\<close> is removed, the later ones move down.\<close>

definition splice1 :: "'a list \<Rightarrow> nat \<Rightarrow> 'a list" where
  "splice1 xs index = take index xs @ drop (Suc index) xs"

subsection \<open>clearChargingProfiles\<close>

text \<open>
  The four tests of the callback, in the source's order. \<^verbatim>\<open>!chargingProfilePurpose\<close> holds
  for an absent purpose; \<^verbatim>\<open>!stackLevel\<close> holds for an absent stack level and for 0.
  A strict equality between a profile's field and an absent payload field is false.
\<close>

definition clearCurrentCP :: "ClearChargingProfileRequest \<Rightarrow> OCPP16ChargingProfile \<Rightarrow> bool" where
  "clearCurrentCP commandPayload chargingProfile =
     (let c1 = (Some (chargingProfileId chargingProfile) = id' commandPayload);
          c2 = (if chargingProfilePurpose' commandPayload = None
                  \<and> Some (stackLevel chargingProfile) = stackLevel' commandPayload then True else c1);
          c3 = (if (stackLevel' commandPayload = None \<or> stackLevel' commandPayload = Some 0)
                  \<and> Some (chargingProfilePurpose chargingProfile) = chargingProfilePurpose' commandPayload
                then True else c2);
          c4 = (if Some (stackLevel chargingProfile) = stackLevel' commandPayload
                  \<and> Some (chargingProfilePurpose chargingProfile) = chargingProfilePurpose' commandPayload
                then True else c3)
      in c4)"

definition clearCallback :: "ClearChargingProfileRequest \<Rightarrow> OCPP16ChargingProfile \<Rightarrow> nat
    \<Rightarrow> OCPP16ChargingProfile list \<times> bool \<Rightarrow> OCPP16ChargingProfile list \<times> bool" where
  "clearCallback commandPayload chargingProfile index st =
     (case st of (profiles, clearedCP) \<Rightarrow>
        if clearCurrentCP commandPayload chargingProfile
        then (splice1 profiles index, True)
        else (profiles, clearedCP))"

text \<open>
  The result is the list as the call leaves it (the argument is changed in place) and the
  returned flag. \<open>None\<close> is an undefined list.
\<close>

definition clearChargingProfiles :: "ClearChargingProfileRequest \<Rightarrow> OCPP16ChargingProfile list option
    \<Rightarrow> OCPP16ChargingProfile list option \<times> bool" where
  "clearChargingProfiles commandPayload profiles =
     (case profiles of
        None \<Rightarrow> (None, False)
      | Some xs \<Rightarrow>
          if xs \<noteq> []
          then (case forEach (clearCallback commandPayload) (length xs) 0 (xs, False) of
                  (xs', clearedCP) \<Rightarrow> (Some xs', clearedCP))
          else (Some xs, False))"

subsection \<open>setChargingProfile\<close>

text \<open>The test of the callback: same id, or same stack level and purpose.\<close>

definition sameProfile :: "OCPP16ChargingProfile \<Rightarrow> OCPP16ChargingProfile \<Rightarrow> bool" where
  "sameProfile chargingProfile cp =
     (chargingProfileId chargingProfile = chargingProfileId cp
      \<or> (stackLevel chargingProfile = stackLevel cp
          \<and> chargingProfilePurpose chargingProfile = chargingProfilePurpose cp))"

definition setCallback :: "OCPP16ChargingProfile \<Rightarrow> OCPP16ChargingProfile \<Rightarrow> nat
    \<Rightarrow> OCPP16ChargingProfile list \<times> bool \<Rightarrow> OCPP16ChargingProfile list \<times> bool" where
  "setCallback cp chargingProfile index st =
     (case st of (profiles, cpReplaced) \<Rightarrow>
        if sameProfile chargingProfile cp
        then (profiles[index := cp], True)
        else (profiles, cpReplaced))"

text \<open>
  An undefined list is initialised first; on an unknown connector that assignment is a
  write on \<^verbatim>\<open>undefined\<close>. The second initialisation of the source (for a value that is
  not an array) has no case here: the field's type holds a list or nothing.
  \<^verbatim>\<open>isNotEmptyArray\<close> (utils) is the test that the array has an element.
\<close>

definition setChargingProfile :: "ChargingStation \<Rightarrow> nat \<Rightarrow> OCPP16ChargingProfile
    \<Rightarrow> error + ChargingStation" where
  "setChargingProfile chargingStation cid cp =
     (case getConnectorStatus chargingStation cid of
        None \<Rightarrow> Inl TypeError
      | Some c \<Rightarrow>
          (let xs = (case chargingProfiles c of None \<Rightarrow> [] | Some ys \<Rightarrow> ys);
               (xs', cpReplaced) =
                 (if xs \<noteq> [] then forEach (setCallback cp) (length xs) 0 (xs, False)
                  else (xs, False));
               xs'' = (if \<not> cpReplaced then xs' @ [cp] else xs')
           in Inr (setConnectorStatus chargingStation cid (c\<lparr>chargingProfiles := Some xs''\<rparr>))))"

subsection \<open>composeChargingSchedule and composeChargingSchedules\<close>

text \<open>
  The functions of the date-fns library that the composition uses, by their
  documentation. Dates are milliseconds since the epoch. The library's versions differ on
  an interval whose end is before its start (one throws, one swaps the ends); on an
  interval with \<open>start \<le> end\<close> they agree with the definitions here.
\<close>

record Interval =
  start :: int
  end' :: int

definition addSeconds :: "int \<Rightarrow> int \<Rightarrow> int" where
  "addSeconds date amount = date + amount * 1000"

definition differenceInSeconds :: "int \<Rightarrow> int \<Rightarrow> int" where
  "differenceInSeconds dateLeft dateRight = (dateLeft - dateRight) sdiv 1000"

definition isBefore :: "int \<Rightarrow> int \<Rightarrow> bool" where
  "isBefore date dateToCompare = (date < dateToCompare)"

definition isAfter :: "int \<Rightarrow> int \<Rightarrow> bool" where
  "isAfter date dateToCompare = (date > dateToCompare)"

definition isWithinInterval :: "int \<Rightarrow> Interval \<Rightarrow> bool" where
  "isWithinInterval date interval = (start interval \<le> date \<and> date \<le> end' interval)"

definition areIntervalsOverlapping :: "Interval \<Rightarrow> Interval \<Rightarrow> bool" where
  "areIntervalsOverlapping intervalLeft intervalRight =
     (start intervalLeft < end' intervalRight \<and> start intervalRight < end' intervalLeft)"

text \<open>The intervals on which the definitions above are the library's.\<close>

definition validInterval :: "Interval \<Rightarrow> bool" where
  "validInterval interval = (start interval \<le> end' interval)"

definition scheduleInterval :: "'p OCPP16ChargingSchedule \<Rightarrow> Interval" where
  "scheduleInterval s = \<lparr>start = startSchedule s,
     end' = addSeconds (startSchedule s) (duration s)\<rparr>"

text \<open>
  The callback of the first \<^verbatim>\<open>filter\<close> of \<open>composeChargingSchedule\<close>, on a period and
  its index in the (sorted) array \<open>periods\<close>: keep a period inside the composite interval,
  and a period outside it whose successor is inside.
  \<^verbatim>\<open>index < length - 1\<close> is \<open>Suc index < length\<close>.
\<close>

definition keepFromStart :: "periodStore \<Rightarrow> int \<Rightarrow> Interval \<Rightarrow> ref list \<Rightarrow> nat \<times> ref \<Rightarrow> bool" where
  "keepFromStart h scheduleStart compositeInterval periods ip =
     (case ip of (index, schedulePeriod) \<Rightarrow>
        if isWithinInterval (addSeconds scheduleStart (startPeriod (h schedulePeriod))) compositeInterval
        then True
        else if Suc index < length periods
             \<and> \<not> isWithinInterval (addSeconds scheduleStart (startPeriod (h schedulePeriod))) compositeInterval
             \<and> isWithinInterval
                 (addSeconds scheduleStart (startPeriod (h (periods ! Suc index)))) compositeInterval
        then True
        else False)"

text \<open>
  The callback of the \<^verbatim>\<open>map\<close> that follows a \<^verbatim>\<open>filter\<close>: the period object at index
  0 of the filtered array has its \<^verbatim>\<open>startPeriod\<close> set to 0. This is a write to the store.
\<close>

definition resetFirst :: "periodStore \<Rightarrow> ref list \<Rightarrow> periodStore" where
  "resetFirst h kept =
     (case kept of
        [] \<Rightarrow> h
      | r # _ \<Rightarrow> if startPeriod (h r) \<noteq> 0 then h(r := (h r)\<lparr>startPeriod := 0\<rparr>) else h)"

text \<open>
  \<open>composeChargingSchedule\<close> returns the projected schedule (or nothing), and the model
  returns with it the argument schedule and the store as the call leaves them: the
  argument's array is sorted in place (a stable sort by \<^verbatim>\<open>startPeriod\<close>), and the first
  branch writes to a period object.
\<close>

definition composeChargingSchedule :: "ref OCPP16ChargingSchedule \<Rightarrow> Interval \<Rightarrow> periodStore
    \<Rightarrow> ref OCPP16ChargingSchedule option \<times> ref OCPP16ChargingSchedule \<times> periodStore" where
  "composeChargingSchedule schedule compositeInterval h =
     (let chargingScheduleInterval = scheduleInterval schedule
      in if areIntervalsOverlapping chargingScheduleInterval compositeInterval
         then
           (let sorted = sort_key (\<lambda>r. startPeriod (h r)) (chargingSchedulePeriod schedule);
                cs = schedule\<lparr>chargingSchedulePeriod := sorted\<rparr>
            in if isBefore (start chargingScheduleInterval) (start compositeInterval)
               then
                 (let kept = map snd (filter
                        (keepFromStart h (start chargingScheduleInterval) compositeInterval sorted)
                        (enumerate 0 sorted))
                  in (Some (cs\<lparr>startSchedule := start compositeInterval,
                               duration := differenceInSeconds (end' chargingScheduleInterval)
                                             (start compositeInterval),
                               chargingSchedulePeriod := kept\<rparr>),
                      cs, resetFirst h kept))
               else if isAfter (end' chargingScheduleInterval) (end' compositeInterval)
               then
                 (Some (cs\<lparr>duration := differenceInSeconds (end' compositeInterval)
                                          (start chargingScheduleInterval),
                            chargingSchedulePeriod := filter
                              (\<lambda>r. isWithinInterval
                                 (addSeconds (start chargingScheduleInterval) (startPeriod (h r)))
                                 compositeInterval) sorted\<rparr>),
                  cs, h)
               else (Some cs, cs, h))
         else (None, schedule, h))"

text \<open>
  The callback of the \<^verbatim>\<open>filter\<close> on the lower schedule's periods in the overlapping case,
  with its three tests in the source's order.
\<close>

definition keepLower :: "periodStore \<Rightarrow> bool \<Rightarrow> Interval \<Rightarrow> Interval \<Rightarrow> ref list \<Rightarrow> nat \<times> ref \<Rightarrow> bool" where
  "keepLower h higherFirst higherInterval lowerInterval periods ip =
     (case ip of (index, schedulePeriod) \<Rightarrow>
        if higherFirst
           \<and> isWithinInterval (addSeconds (start lowerInterval) (startPeriod (h schedulePeriod)))
                \<lparr>start = start lowerInterval, end' = end' higherInterval\<rparr>
        then False
        else if higherFirst \<and> Suc index < length periods
           \<and> \<not> isWithinInterval (addSeconds (start lowerInterval) (startPeriod (h schedulePeriod)))
                \<lparr>start = start lowerInterval, end' = end' higherInterval\<rparr>
           \<and> isWithinInterval
                (addSeconds (start lowerInterval) (startPeriod (h (periods ! Suc index))))
                \<lparr>start = start lowerInterval, end' = end' higherInterval\<rparr>
        then False
        else if \<not> higherFirst
           \<and> isWithinInterval (addSeconds (start lowerInterval) (startPeriod (h schedulePeriod)))
                \<lparr>start = start higherInterval, end' = end' lowerInterval\<rparr>
        then False
        else True)"

text \<open>The two \<^verbatim>\<open>map\<close> callbacks that build the returned period objects.\<close>

definition higherPeriod :: "bool \<Rightarrow> Interval \<Rightarrow> Interval \<Rightarrow> OCPP16ChargingSchedulePeriod
    \<Rightarrow> OCPP16ChargingSchedulePeriod" where
  "higherPeriod higherFirst higherInterval lowerInterval schedulePeriod =
     schedulePeriod\<lparr>startPeriod :=
       (if higherFirst then 0
        else startPeriod schedulePeriod
             + differenceInSeconds (start higherInterval) (start lowerInterval))\<rparr>"

definition lowerPeriod :: "bool \<Rightarrow> Interval \<Rightarrow> Interval \<Rightarrow> OCPP16ChargingSchedulePeriod
    \<Rightarrow> OCPP16ChargingSchedulePeriod" where
  "lowerPeriod higherFirst higherInterval lowerInterval schedulePeriod =
     schedulePeriod\<lparr>startPeriod :=
       (if higherFirst
        then startPeriod schedulePeriod
             + differenceInSeconds (start lowerInterval) (start higherInterval)
        else 0)\<rparr>"

text \<open>
  \<open>composeChargingSchedules\<close>. The result is the outcome (a thrown error, or the returned
  schedule or nothing), then the two argument schedules and the store as the call leaves
  them. With one schedule defined the source returns the projection itself; the model
  returns its periods as read from the store at that moment. With both defined, a
  projection that is undefined is dereferenced (\<^verbatim>\<open>compositeChargingScheduleHigher!.startSchedule\<close>),
  which throws.
\<close>

definition composeChargingSchedules :: "ref OCPP16ChargingSchedule option
    \<Rightarrow> ref OCPP16ChargingSchedule option \<Rightarrow> Interval \<Rightarrow> periodStore
    \<Rightarrow> (error + OCPP16ChargingSchedulePeriod OCPP16ChargingSchedule option)
        \<times> ref OCPP16ChargingSchedule option \<times> ref OCPP16ChargingSchedule option \<times> periodStore" where
  "composeChargingSchedules chargingScheduleHigher chargingScheduleLower compositeInterval h =
     (case (chargingScheduleHigher, chargingScheduleLower) of
        (None, None) \<Rightarrow> (Inr None, None, None, h)
      | (Some higher, None) \<Rightarrow>
          (case composeChargingSchedule higher compositeInterval h of
             (r, higher', h') \<Rightarrow> (Inr (map_option (readSchedule h') r), Some higher', None, h'))
      | (None, Some lower) \<Rightarrow>
          (case composeChargingSchedule lower compositeInterval h of
             (r, lower', h') \<Rightarrow> (Inr (map_option (readSchedule h') r), None, Some lower', h'))
      | (Some higher, Some lower) \<Rightarrow>
          (case composeChargingSchedule higher compositeInterval h of
             (compositeChargingScheduleHigher, higher', h1) \<Rightarrow>
          (case composeChargingSchedule lower compositeInterval h1 of
             (compositeChargingScheduleLower, lower', h2) \<Rightarrow>
          (case compositeChargingScheduleHigher of
             None \<Rightarrow> (Inl TypeError, Some higher', Some lower', h2)
           | Some cHigher \<Rightarrow>
          (case compositeChargingScheduleLower of
             None \<Rightarrow> (Inl TypeError, Some higher', Some lower', h2)
           | Some cLower \<Rightarrow>
          (let higherInterval = scheduleInterval cHigher;
               lowerInterval = scheduleInterval cLower;
               higherFirst = isBefore (start higherInterval) (start lowerInterval);
               startSchedule' = (if higherFirst then start higherInterval else start lowerInterval);
               duration' = (if higherFirst
                  then differenceInSeconds (end' lowerInterval) (start higherInterval)
                  else differenceInSeconds (end' higherInterval) (start lowerInterval))
           in if \<not> areIntervalsOverlapping higherInterval lowerInterval
              then
                (Inr (Some \<lparr>duration = duration', startSchedule = startSchedule',
                   chargingRateUnit = chargingRateUnit cHigher,
                   chargingSchedulePeriod = sort_key startPeriod
                     (map (\<lambda>r. higherPeriod higherFirst higherInterval lowerInterval (h2 r))
                        (chargingSchedulePeriod cHigher)
                      @ map (\<lambda>r. lowerPeriod higherFirst higherInterval lowerInterval (h2 r))
                        (chargingSchedulePeriod cLower))\<rparr>),
                 Some higher', Some lower', h2)
              else
                (let kept = map snd (filter
                       (keepLower h2 higherFirst higherInterval lowerInterval
                          (chargingSchedulePeriod cLower))
                       (enumerate 0 (chargingSchedulePeriod cLower)));
                     h3 = resetFirst h2 kept
                 in (Inr (Some \<lparr>duration = duration', startSchedule = startSchedule',
                       chargingRateUnit = chargingRateUnit cHigher,
                       chargingSchedulePeriod = sort_key startPeriod
                         (map (\<lambda>r. higherPeriod higherFirst higherInterval lowerInterval (h2 r))
                            (chargingSchedulePeriod cHigher)
                          @ map (\<lambda>r. lowerPeriod higherFirst higherInterval lowerInterval (h3 r))
                              kept)\<rparr>),
                     Some higher', Some lower', h3))))))))"

text \<open>
  The claim's words for the overlapping case with the higher schedule first: of the lower
  schedule's periods, those whose start instant is outside the overlap interval and whose
  successor's start instant is not inside it; then the first survivor's \<^verbatim>\<open>startPeriod\<close> is
  reset to 0 and every survivor is moved by \<open>d\<close> seconds.
\<close>

definition lowerSurvivors :: "periodStore \<Rightarrow> int \<Rightarrow> Interval \<Rightarrow> ref list \<Rightarrow> ref list" where
  "lowerSurvivors h lowerStart overlap periods =
     map (\<lambda>i. periods ! i)
       (filter
          (\<lambda>i. \<not> isWithinInterval (addSeconds lowerStart (startPeriod (h (periods ! i)))) overlap
               \<and> \<not> (Suc i < length periods
                    \<and> isWithinInterval
                         (addSeconds lowerStart (startPeriod (h (periods ! Suc i)))) overlap))
          [0..<length periods])"

definition offsetSurvivors :: "periodStore \<Rightarrow> int \<Rightarrow> ref list \<Rightarrow> OCPP16ChargingSchedulePeriod list" where
  "offsetSurvivors h d survivors =
     (let h' = resetFirst h survivors
      in map (\<lambda>q. (h' q)\<lparr>startPeriod := startPeriod (h' q) + d\<rparr>) survivors)"

subsection \<open>changeAvailability\<close>

datatype OCPP16AvailabilityStatus = ACCEPTED | REJECTED | SCHEDULED

text \<open>
  Modelled from the spec: \<^verbatim>\<open>OCPPServiceUtils.sendAndSetConnectorStatus\<close> is not in this
  file; the spec has it perform the status transition and push the status notification.
  An unknown connector is left alone (the ledger's mutators are total).
\<close>

definition sendAndSetConnectorStatus :: "ChargingStation \<Rightarrow> nat \<Rightarrow> OCPP16ChargePointStatus
    \<Rightarrow> ChargingStation" where
  "sendAndSetConnectorStatus chargingStation cid chargePointStatus =
     (case getConnectorStatus chargingStation cid of
        None \<Rightarrow> chargingStation
      | Some c \<Rightarrow>
          setConnectorStatus
            (chargingStation\<lparr>statusNotifications :=
               statusNotifications chargingStation @ [(cid, chargePointStatus)]\<rparr>)
            cid (c\<lparr>status := Some chargePointStatus\<rparr>))"

text \<open>
  The loop over \<^verbatim>\<open>connectorIds\<close>, with the responses pushed so far. The assignment of
  \<^verbatim>\<open>availability\<close> is a write on \<^verbatim>\<open>undefined\<close> for an unknown connector id.
\<close>

fun changeAvailabilityLoop :: "ChargingStation \<Rightarrow> nat list \<Rightarrow> OCPP16ChargePointStatus
    \<Rightarrow> OCPP16AvailabilityType \<Rightarrow> OCPP16AvailabilityStatus list
    \<Rightarrow> error + (ChargingStation \<times> OCPP16AvailabilityStatus list)" where
  "changeAvailabilityLoop chargingStation [] chargePointStatus availabilityType responses =
     Inr (chargingStation, responses)"
| "changeAvailabilityLoop chargingStation (cid # connectorIds) chargePointStatus availabilityType responses =
     (case getConnectorStatus chargingStation cid of
        None \<Rightarrow> Inl TypeError
      | Some connectorStatus \<Rightarrow>
          (let response = (if transactionStarted connectorStatus = Some True
                           then SCHEDULED else ACCEPTED);
               st1 = setConnectorStatus chargingStation cid
                       (connectorStatus\<lparr>availability := availabilityType\<rparr>);
               st2 = (if response = ACCEPTED
                      then sendAndSetConnectorStatus st1 cid chargePointStatus else st1)
           in changeAvailabilityLoop st2 connectorIds chargePointStatus availabilityType
                (responses @ [response])))"

definition changeAvailability :: "ChargingStation \<Rightarrow> nat list \<Rightarrow> OCPP16ChargePointStatus
    \<Rightarrow> OCPP16AvailabilityType \<Rightarrow> error + (ChargingStation \<times> OCPP16AvailabilityStatus)" where
  "changeAvailability chargingStation connectorIds chargePointStatus availabilityType =
     (case changeAvailabilityLoop chargingStation connectorIds chargePointStatus availabilityType [] of
        Inl e \<Rightarrow> Inl e
      | Inr (st', responses) \<Rightarrow>
          Inr (st', if SCHEDULED \<in> set responses then SCHEDULED else ACCEPTED))"

text \<open>The claim's words: a connector has an active transaction.\<close>

definition hasActiveTransaction :: "ChargingStation \<Rightarrow> nat \<Rightarrow> bool" where
  "hasActiveTransaction chargingStation cid =
     (case getConnectorStatus chargingStation cid of
        None \<Rightarrow> False
      | Some c \<Rightarrow> transactionStarted c = Some True)"

text \<open>The claim's words: a listed connector after the call. Availability is set in both
  cases; the status changes only without an active transaction.\<close>

definition availabilityChanged :: "OCPP16ChargePointStatus \<Rightarrow> OCPP16AvailabilityType
    \<Rightarrow> ConnectorStatus \<Rightarrow> ConnectorStatus" where
  "availabilityChanged chargePointStatus availabilityType c =
     (if transactionStarted c = Some True then c\<lparr>availability := availabilityType\<rparr>
      else c\<lparr>availability := availabilityType, status := Some chargePointStatus\<rparr>)"

subsection \<open>hasReservation\<close>

text \<open>
  Modelled from the spec: \<^verbatim>\<open>hasReservationExpired\<close> is not in this file; the spec has a
  reservation with \<^verbatim>\<open>expiryDate \<le> now\<close> expired. The clock is an argument.
\<close>

definition hasReservationExpired :: "int \<Rightarrow> Reservation \<Rightarrow> bool" where
  "hasReservationExpired now reservation = (expiryDate reservation \<le> now)"

definition hasReservation :: "int \<Rightarrow> ChargingStation \<Rightarrow> nat \<Rightarrow> string \<Rightarrow> bool" where
  "hasReservation now chargingStation cid tag =
     (let connectorReservation = getReservationBy chargingStation cid;
          chargingStationReservation = getReservationBy chargingStation 0
      in if ((case getConnectorStatus chargingStation cid of
                None \<Rightarrow> False | Some c \<Rightarrow> status c = Some Reserved)
             \<and> (case connectorReservation of
                  None \<Rightarrow> False
                | Some r \<Rightarrow> \<not> hasReservationExpired now r \<and> idTag r = tag))
            \<or> ((case getConnectorStatus chargingStation 0 of
                   None \<Rightarrow> False | Some c \<Rightarrow> status c = Some Reserved)
                \<and> (case chargingStationReservation of
                     None \<Rightarrow> False
                   | Some r \<Rightarrow> \<not> hasReservationExpired now r \<and> idTag r = tag))
         then True else False)"

section \<open>Meter values (buildMeterValue)\<close>

subsection \<open>Numbers and the helpers outside this file\<close>

definition numMap :: "(real \<Rightarrow> real) \<Rightarrow> number \<Rightarrow> number" where
  "numMap f n = (case n of Num x \<Rightarrow> Num (f x) | NaN \<Rightarrow> NaN)"

definition numAdd :: "number \<Rightarrow> number \<Rightarrow> number" where
  "numAdd a b = (case (a, b) of (Num x, Num y) \<Rightarrow> Num (x + y) | _ \<Rightarrow> NaN)"

text \<open>\<^verbatim>\<open>n >= 0\<close>: false for \<^verbatim>\<open>NaN\<close>.\<close>

definition numGe0 :: "number \<Rightarrow> bool" where
  "numGe0 n = (case n of Num x \<Rightarrow> 0 \<le> x | NaN \<Rightarrow> False)"

text \<open>
  \<^verbatim>\<open>parseInt\<close> of JavaScript with no radix: leading white space, a sign, then the digits
  up to the first character that is none (hexadecimal digits after \<^verbatim>\<open>0x\<close>, decimal ones
  otherwise); \<^verbatim>\<open>NaN\<close> when there is no digit.
\<close>

definition digitValue :: "char \<Rightarrow> nat option" where
  "digitValue c = map_of
     (zip ''0123456789abcdef'' [0, 1, 2, 3, 4, 5, 6, 7, 8, 9, 10, 11, 12, 13, 14, 15]
      @ zip ''ABCDEF'' [10, 11, 12, 13, 14, 15]) c"

fun parseDigits :: "nat \<Rightarrow> string \<Rightarrow> nat option \<Rightarrow> nat option" where
  "parseDigits radix [] acc = acc"
| "parseDigits radix (c # cs) acc =
     (case digitValue c of
        None \<Rightarrow> acc
      | Some d \<Rightarrow>
          if d < radix
          then parseDigits radix cs (Some (radix * (case acc of None \<Rightarrow> 0 | Some a \<Rightarrow> a) + d))
          else acc)"

definition isWhiteSpace :: "char \<Rightarrow> bool" where
  "isWhiteSpace c = (c \<in> set [CHR '' '', CHR 0x09, CHR 0x0A, CHR 0x0B, CHR 0x0C, CHR 0x0D])"

definition parseInt :: "string \<Rightarrow> number" where
  "parseInt s =
     (let t = dropWhile isWhiteSpace s;
          (sign, u) = (case t of
                         [] \<Rightarrow> (1, t)
                       | c # r \<Rightarrow> if c = CHR ''-'' then (- 1, r)
                                  else if c = CHR ''+'' then (1, r) else (1, t));
          (radix, w) = (case u of
                          a # b # r \<Rightarrow> if a = CHR ''0'' \<and> (b = CHR ''x'' \<or> b = CHR ''X'')
                                        then (16, r) else (10, u)
                        | _ \<Rightarrow> (10, u))
      in case parseDigits radix w None of
           None \<Rightarrow> NaN
         | Some n \<Rightarrow> Num (sign * real n))"

text \<open>
  Modelled from the spec: \<^verbatim>\<open>roundTo\<close> (utils) is not in this file; it rounds to the
  given number of decimals.
\<close>

definition roundTo :: "real \<Rightarrow> nat \<Rightarrow> real" where
  "roundTo numberValue scale = of_int \<lfloor>numberValue * 10 ^ scale + 1 / 2\<rfloor> / 10 ^ scale"

text \<open>
  Modelled from the spec: \<^verbatim>\<open>isNotEmptyString\<close> (utils) is not in this file; the spec has
  it tell whether the template carries a literal value.
\<close>

definition isNotEmptyString :: "string option \<Rightarrow> bool" where
  "isNotEmptyString v = (case v of None \<Rightarrow> False | Some t \<Rightarrow> t \<noteq> [])"

text \<open>
  Modelled from the spec: \<^verbatim>\<open>Constants.DEFAULT_FLUCTUATION_PERCENT\<close> is not in this file;
  the spec gives 5 percent.
\<close>

definition DEFAULT_FLUCTUATION_PERCENT :: real where
  "DEFAULT_FLUCTUATION_PERCENT = 5"

text \<open>
  Modelled from the spec: the random helpers of utils are not in this file. Each takes
  the draw \<open>u\<close> of the injected random source, a number from 0 to 1.
  \<^verbatim>\<open>getRandomFloatRounded(max, min)\<close> draws in \<open>[min, max]\<close> and rounds to 2 decimals;
  \<^verbatim>\<open>getRandomInteger(max, min)\<close> draws an integer in \<open>[min, max]\<close>;
  \<^verbatim>\<open>getRandomFloatFluctuatedRounded(value, percent)\<close> applies a fluctuation of at most
  \<open>percent\<close> either way and rounds to 2 decimals.
\<close>

definition getRandomFloatRounded :: "real \<Rightarrow> real \<Rightarrow> real \<Rightarrow> real" where
  "getRandomFloatRounded max' min' u = roundTo (min' + u * (max' - min')) 2"

definition getRandomInteger :: "real \<Rightarrow> real \<Rightarrow> real \<Rightarrow> real" where
  "getRandomInteger max' min' u =
     of_int (\<lceil>min'\<rceil> + \<lfloor>u * of_int (\<lfloor>max'\<rfloor> - \<lceil>min'\<rceil>)\<rfloor>)"

definition getRandomFloatFluctuatedRounded :: "number \<Rightarrow> real \<Rightarrow> real \<Rightarrow> number" where
  "getRandomFloatFluctuatedRounded staticValue percent u =
     numMap (\<lambda>v. roundTo (v * (1 + percent / 100 * (2 * u - 1))) 2) staticValue"

text \<open>
  Modelled from the spec: \<^verbatim>\<open>getLimitFromSampledValueTemplateCustomValue\<close> (the spec's
  \<^verbatim>\<open>clampCustomValue\<close>) is not in this file. The literal is read as \<^verbatim>\<open>parseInt\<close> reads
  it and multiplied by the unit multiplier; with the limitation enabled, a value outside
  \<open>[min, max]\<close> is replaced by the fallback.
\<close>

record LimitOptions =
  limitationEnabled :: bool
  fallbackValue :: real
  unitMultiplier :: real

definition getLimitFromSampledValueTemplateCustomValue :: "string option \<Rightarrow> real \<Rightarrow> real
    \<Rightarrow> LimitOptions \<Rightarrow> number" where
  "getLimitFromSampledValueTemplateCustomValue v maxLimit minLimit options =
     (case numMap (\<lambda>x. x * unitMultiplier options)
             (case v of None \<Rightarrow> NaN | Some t \<Rightarrow> parseInt t) of
        NaN \<Rightarrow> NaN
      | Num x \<Rightarrow>
          if limitationEnabled options \<and> (x < minLimit \<or> maxLimit < x)
          then Num (fallbackValue options) else Num x)"

subsection \<open>Templates and sampled values\<close>

datatype MeterValueUnit = WATT_HOUR | KILO_WATT_HOUR | WATT_UNIT | KILO_WATT | AMP | VOLT | PERCENT

datatype OCPP16MeterValuePhase = L1 | L2 | L3 | N | L1_N | L2_N | L3_N | L1_L2 | L2_L3 | L3_L1

datatype MeterValueContext = SAMPLE_PERIODIC | TRANSACTION_BEGIN | TRANSACTION_END

datatype MeterValueLocation = BODY | CABLE | EV | INLET | OUTLET

record SampledValueTemplate =
  measurand :: "OCPP16MeterValueMeasurand option"
  unit' :: "MeterValueUnit option"
  phase :: "OCPP16MeterValuePhase option"
  location :: "MeterValueLocation option"
  context' :: "MeterValueContext option"
  value' :: "string option"
  minimumValue :: "real option"
  fluctuationPercent :: "real option"

text \<open>
  A sampled value; \<open>svValue\<close> is the number whose text (\<^verbatim>\<open>value.toString()\<close>) the source
  stores, absent when the value passed is undefined.
\<close>

record OCPP16SampledValue =
  svUnit :: "MeterValueUnit option"
  svContext :: "MeterValueContext option"
  svMeasurand :: "OCPP16MeterValueMeasurand option"
  svLocation :: "MeterValueLocation option"
  svValue :: "number option"
  svPhase :: "OCPP16MeterValuePhase option"

record OCPP16MeterValue =
  timestamp :: int
  sampledValue :: "OCPP16SampledValue list"

definition getMeasurandDefaultLocation :: "OCPP16MeterValueMeasurand option \<Rightarrow> MeterValueLocation option" where
  "getMeasurandDefaultLocation measurandType =
     (case measurandType of Some STATE_OF_CHARGE \<Rightarrow> Some EV | _ \<Rightarrow> None)"

definition buildSampledValue :: "SampledValueTemplate \<Rightarrow> number option \<Rightarrow> MeterValueContext option
    \<Rightarrow> OCPP16MeterValuePhase option \<Rightarrow> OCPP16SampledValue" where
  "buildSampledValue sampledValueTemplate v ctx ph =
     \<lparr>svUnit = unit' sampledValueTemplate,
      svContext = (case ctx of Some c \<Rightarrow> Some c | None \<Rightarrow> context' sampledValueTemplate),
      svMeasurand = measurand sampledValueTemplate,
      svLocation = (case location sampledValueTemplate of
                      Some l \<Rightarrow> Some l
                    | None \<Rightarrow> getMeasurandDefaultLocation (measurand sampledValueTemplate)),
      svValue = v,
      svPhase = (case ph of Some q \<Rightarrow> Some q | None \<Rightarrow> phase sampledValueTemplate)\<rparr>"

subsection \<open>The station's collaborators\<close>

text \<open>
  What \<open>buildMeterValue\<close> calls and this file does not hold, taken as arguments: the
  template resolution \<^verbatim>\<open>getSampledValueTemplate(station, connectorId, measurand?, phase?)\<close>,
  the station's \<^verbatim>\<open>getConnectorMaximumAvailablePower\<close> and
  \<^verbatim>\<open>getEnergyActiveImportRegisterByTransactionId\<close> (which reads the station as it is when
  called), the clock, and the draws of the random source (draw 0 for the state of
  charge, draw 1 for the energy). The values that the voltage, power and current parts
  synthesise go through further helpers outside this file and have no part in what is
  proved here; the sampled values these parts push are arguments too. The checks of the
  power and current parts, their order and their errors are the source's.
\<close>

record Collaborators =
  getSampledValueTemplate :: "nat \<Rightarrow> OCPP16MeterValueMeasurand option
     \<Rightarrow> OCPP16MeterValuePhase option \<Rightarrow> SampledValueTemplate option"
  getConnectorMaximumAvailablePower :: "nat \<Rightarrow> real"
  getEnergyActiveImportRegisterByTransactionId :: "ChargingStation \<Rightarrow> int \<Rightarrow> number"
  clock :: int
  random :: "nat \<Rightarrow> real"
  voltageSampledValues :: "OCPP16SampledValue list"
  powerSampledValues :: "CurrentType \<Rightarrow> OCPP16SampledValue list"
  currentSampledValues :: "CurrentType \<Rightarrow> OCPP16SampledValue list"

subsection \<open>buildMeterValue\<close>

definition orEnergy :: "OCPP16MeterValueMeasurand option \<Rightarrow> OCPP16MeterValueMeasurand" where
  "orEnergy measurandType =
     (case measurandType of Some m \<Rightarrow> m | None \<Rightarrow> ENERGY_ACTIVE_IMPORT_REGISTER)"

text \<open>\<open>checkMeasurandPowerDivider\<close>: the error it throws, if any.\<close>

definition checkMeasurandPowerDivider :: "ChargingStation \<Rightarrow> OCPP16MeterValueMeasurand option
    \<Rightarrow> error option" where
  "checkMeasurandPowerDivider chargingStation measurandType =
     (case powerDivider chargingStation of
        None \<Rightarrow> Some (OCPPError INTERNAL_ERROR (PowerDividerUndefined (orEnergy measurandType))
                        METER_VALUES)
      | Some d \<Rightarrow>
          if d \<le> 0
          then Some (OCPPError INTERNAL_ERROR (PowerDividerZeroOrBelow (orEnergy measurandType) d)
                       METER_VALUES)
          else None)"

text \<open>The state of charge part: the sampled values it pushes (none without a template).\<close>

definition socSampledValues :: "Collaborators \<Rightarrow> nat \<Rightarrow> OCPP16SampledValue list" where
  "socSampledValues env cid =
     (case getSampledValueTemplate env cid (Some STATE_OF_CHARGE) None of
        None \<Rightarrow> []
      | Some socSampledValueTemplate \<Rightarrow>
          (let socMaximumValue = 100;
               socMinimumValue = (case minimumValue socSampledValueTemplate of
                                    Some m \<Rightarrow> m | None \<Rightarrow> 0);
               socSampledValueTemplateValue =
                 (if isNotEmptyString (value' socSampledValueTemplate)
                  then getRandomFloatFluctuatedRounded
                         (case value' socSampledValueTemplate of
                            Some t \<Rightarrow> parseInt t | None \<Rightarrow> NaN)
                         (case fluctuationPercent socSampledValueTemplate of
                            Some f \<Rightarrow> f | None \<Rightarrow> DEFAULT_FLUCTUATION_PERCENT)
                         (random env 0)
                  else Num (getRandomInteger socMaximumValue socMinimumValue (random env 0)))
           in [buildSampledValue socSampledValueTemplate (Some socSampledValueTemplateValue)
                 None None]))"

text \<open>
  The power and the current part: the power divider check, then the switch on
  \<^verbatim>\<open>currentOutType\<close>, whose default branch throws.
\<close>

definition powerPart :: "Collaborators \<Rightarrow> ChargingStation \<Rightarrow> nat \<Rightarrow> error + OCPP16SampledValue list" where
  "powerPart env chargingStation cid =
     (case getSampledValueTemplate env cid (Some POWER_ACTIVE_IMPORT) None of
        None \<Rightarrow> Inr []
      | Some powerSampledValueTemplate \<Rightarrow>
          (case checkMeasurandPowerDivider chargingStation (measurand powerSampledValueTemplate) of
             Some e \<Rightarrow> Inl e
           | None \<Rightarrow>
               (case currentOutType chargingStation of
                  Some AC \<Rightarrow> Inr (powerSampledValues env AC)
                | Some DC \<Rightarrow> Inr (powerSampledValues env DC)
                | None \<Rightarrow> Inl (OCPPError INTERNAL_ERROR
                           (UnknownCurrentOutType (orEnergy (measurand powerSampledValueTemplate)))
                           METER_VALUES))))"

definition currentPart :: "Collaborators \<Rightarrow> ChargingStation \<Rightarrow> nat \<Rightarrow> error + OCPP16SampledValue list" where
  "currentPart env chargingStation cid =
     (case getSampledValueTemplate env cid (Some CURRENT_IMPORT) None of
        None \<Rightarrow> Inr []
      | Some currentSampledValueTemplate \<Rightarrow>
          (case checkMeasurandPowerDivider chargingStation (measurand currentSampledValueTemplate) of
             Some e \<Rightarrow> Inl e
           | None \<Rightarrow>
               (case currentOutType chargingStation of
                  Some AC \<Rightarrow> Inr (currentSampledValues env AC)
                | Some DC \<Rightarrow> Inr (currentSampledValues env DC)
                | None \<Rightarrow> Inl (OCPPError INTERNAL_ERROR
                           (UnknownCurrentOutType (orEnergy (measurand currentSampledValueTemplate)))
                           METER_VALUES))))"

text \<open>The energy part. \<open>energyValueRounded\<close> is the increment it synthesises.\<close>

definition energyUnitDivider :: "SampledValueTemplate \<Rightarrow> real" where
  "energyUnitDivider energySampledValueTemplate =
     (if unit' energySampledValueTemplate = Some KILO_WATT_HOUR then 1000 else 1)"

definition energyValueRounded :: "Collaborators \<Rightarrow> ChargingStation \<Rightarrow> nat \<Rightarrow> SampledValueTemplate
    \<Rightarrow> real \<Rightarrow> number" where
  "energyValueRounded env chargingStation cid energySampledValueTemplate interval =
     (let unitDivider = energyUnitDivider energySampledValueTemplate;
          connectorMaximumAvailablePower = getConnectorMaximumAvailablePower env cid;
          connectorMaximumEnergyRounded =
            roundTo (connectorMaximumAvailablePower * interval / (3600 * 1000)) 2;
          connectorMinimumEnergyRounded =
            roundTo (case minimumValue energySampledValueTemplate of Some m \<Rightarrow> m | None \<Rightarrow> 0) 2
      in if isNotEmptyString (value' energySampledValueTemplate)
         then getRandomFloatFluctuatedRounded
                (getLimitFromSampledValueTemplateCustomValue (value' energySampledValueTemplate)
                   connectorMaximumEnergyRounded connectorMinimumEnergyRounded
                   \<lparr>limitationEnabled = customValueLimitationMeterValues chargingStation,
                    fallbackValue = connectorMinimumEnergyRounded,
                    unitMultiplier = unitDivider\<rparr>)
                (case fluctuationPercent energySampledValueTemplate of
                   Some f \<Rightarrow> f | None \<Rightarrow> DEFAULT_FLUCTUATION_PERCENT)
                (random env 1)
         else Num (getRandomFloatRounded connectorMaximumEnergyRounded
                     connectorMinimumEnergyRounded (random env 1)))"

text \<open>\<^verbatim>\<open>// Persist previous value on connector\<close>: the two registers of the connector.\<close>

definition persistEnergy :: "number \<Rightarrow> ConnectorStatus \<Rightarrow> ConnectorStatus" where
  "persistEnergy increment connector =
     (case (energyActiveImportRegisterValue connector,
            transactionEnergyActiveImportRegisterValue connector) of
        (Some a, Some b) \<Rightarrow>
          if numGe0 a \<and> numGe0 b
          then connector\<lparr>energyActiveImportRegisterValue := Some (numAdd a increment),
                         transactionEnergyActiveImportRegisterValue := Some (numAdd b increment)\<rparr>
          else connector\<lparr>energyActiveImportRegisterValue := Some (Num 0),
                         transactionEnergyActiveImportRegisterValue := Some (Num 0)\<rparr>
      | _ \<Rightarrow> connector\<lparr>energyActiveImportRegisterValue := Some (Num 0),
                       transactionEnergyActiveImportRegisterValue := Some (Num 0)\<rparr>)"

definition energyPart :: "Collaborators \<Rightarrow> ChargingStation \<Rightarrow> nat \<Rightarrow> int \<Rightarrow> real
    \<Rightarrow> error + (OCPP16SampledValue list \<times> ChargingStation)" where
  "energyPart env chargingStation cid tid interval =
     (case getSampledValueTemplate env cid None None of
        None \<Rightarrow> Inr ([], chargingStation)
      | Some energySampledValueTemplate \<Rightarrow>
          (case checkMeasurandPowerDivider chargingStation (measurand energySampledValueTemplate) of
             Some e \<Rightarrow> Inl e
           | None \<Rightarrow>
               (let unitDivider = energyUnitDivider energySampledValueTemplate;
                    increment = energyValueRounded env chargingStation cid
                                  energySampledValueTemplate interval;
                    st' = (case getConnectorStatus chargingStation cid of
                             None \<Rightarrow> chargingStation
                           | Some connector \<Rightarrow>
                               setConnectorStatus chargingStation cid
                                 (persistEnergy increment connector))
                in Inr ([buildSampledValue energySampledValueTemplate
                           (Some (numMap (\<lambda>x. roundTo (x / unitDivider) 2)
                                    (getEnergyActiveImportRegisterByTransactionId env st' tid)))
                           None None],
                        st'))))"

text \<open>
  \<open>buildMeterValue\<close>: the parts in the source's order. The first error ends the call; the
  registers are written by the energy part only, which is the last. Logging (and the
  \<^verbatim>\<open>debug\<close> flag, which only adds log lines) is left out.
\<close>

definition buildMeterValue :: "Collaborators \<Rightarrow> ChargingStation \<Rightarrow> nat \<Rightarrow> int \<Rightarrow> real
    \<Rightarrow> error + (OCPP16MeterValue \<times> ChargingStation)" where
  "buildMeterValue env chargingStation cid tid interval =
     (let soc = socSampledValues env cid;
          voltage = (case getSampledValueTemplate env cid (Some VOLTAGE) None of
                       None \<Rightarrow> [] | Some _ \<Rightarrow> voltageSampledValues env)
      in case powerPart env chargingStation cid of
           Inl e \<Rightarrow> Inl e
         | Inr powerValues \<Rightarrow>
             (case currentPart env chargingStation cid of
                Inl e \<Rightarrow> Inl e
              | Inr currentValues \<Rightarrow>
                  (case energyPart env chargingStation cid tid interval of
                     Inl e \<Rightarrow> Inl e
                   | Inr (energy, st') \<Rightarrow>
                       Inr (\<lparr>timestamp = clock env,
                             sampledValue = soc @ voltage @ powerValues @ currentValues @ energy\<rparr>, st'))))"

text \<open>
  The claims' words. The least state of charge and the fluctuation a template asks for;
  and a register query that answers with the transaction register of connector \<open>cid\<close>
  (0 when there is none), which is how the theorem on the emitted energy value reads
  \<^verbatim>\<open>getEnergyActiveImportRegisterByTransactionId\<close>.
\<close>

definition socMinimum :: "SampledValueTemplate \<Rightarrow> real" where
  "socMinimum t = (case minimumValue t of Some m \<Rightarrow> m | None \<Rightarrow> 0)"

definition fluctuationOf :: "SampledValueTemplate \<Rightarrow> real" where
  "fluctuationOf t =
     (case fluctuationPercent t of Some f \<Rightarrow> f | None \<Rightarrow> DEFAULT_FLUCTUATION_PERCENT)"

definition transactionRegisterOf :: "nat \<Rightarrow> ChargingStation \<Rightarrow> int \<Rightarrow> number" where
  "transactionRegisterOf cid chargingStation tid =
     (case getConnectorStatus chargingStation cid of
        None \<Rightarrow> Num 0
      | Some c \<Rightarrow> (case transactionEnergyActiveImportRegisterValue c of
                     None \<Rightarrow> Num 0 | Some n \<Rightarrow> n))"

section \<open>Example inputs\<close>

definition emptySchedule :: "ref OCPP16ChargingSchedule" where
  "emptySchedule = \<lparr>duration = 0, startSchedule = 0, chargingRateUnit = AMPERE,
     chargingSchedulePeriod = []\<rparr>"

definition profile :: "int \<Rightarrow> int \<Rightarrow> OCPP16ChargingProfilePurposeType \<Rightarrow> OCPP16ChargingProfile" where
  "profile i l p = \<lparr>chargingProfileId = i, stackLevel = l, chargingProfilePurpose = p,
     chargingSchedule = emptySchedule\<rparr>"

definition idleConnector :: ConnectorStatus where
  "idleConnector = \<lparr>availability = Operative, status = Some Available,
     transactionStarted = None, transactionId = None,
     energyActiveImportRegisterValue = None,
     transactionEnergyActiveImportRegisterValue = None,
     chargingProfiles = Some []\<rparr>"

definition exampleStation :: ChargingStation where
  "exampleStation = \<lparr>connectors = [0 \<mapsto> idleConnector, 1 \<mapsto> idleConnector, 2 \<mapsto> idleConnector],
     powerDivider = Some 1, currentOutType = Some AC, numberOfPhases = 1, voltageOut = 230,
     mainVoltageMeterValues = True, phaseLineToLineVoltageMeterValues = False,
     customValueLimitationMeterValues = False,
     getReservationBy = (\<lambda>_. None), statusNotifications = []\<rparr>"

definition reservedStation :: ChargingStation where
  "reservedStation = exampleStation\<lparr>
     connectors := [0 \<mapsto> idleConnector, 1 \<mapsto> idleConnector\<lparr>status := Some Reserved\<rparr>],
     getReservationBy := (\<lambda>cid. if cid = 1
        then Some \<lparr>reservationId = 5, connectorId = 1, idTag = ''A'', expiryDate = 2000\<rparr>
        else None)\<rparr>"

definition busyStation :: ChargingStation where
  "busyStation = exampleStation\<lparr>
     connectors := [0 \<mapsto> idleConnector,
                    1 \<mapsto> idleConnector\<lparr>status := Some Charging, transactionStarted := Some True,
                                          transactionId := Some 42\<rparr>,
                    2 \<mapsto> idleConnector]\<rparr>"

text \<open>
  The schedules of the spec's scenario S5, with \<open>t0 = 0\<close>: the higher one starts at
  \<open>t0\<close> and lasts 300 s, the lower one starts at \<open>t0 + 200 s\<close> and lasts 400 s.
  \<open>lowerOutside\<close> starts at \<open>t0 + 700 s\<close>, after the composite interval has ended.
\<close>

definition period :: "int \<Rightarrow> real \<Rightarrow> OCPP16ChargingSchedulePeriod" where
  "period s l = \<lparr>startPeriod = s, limit = l, numberPhases = None\<rparr>"

definition storeS5 :: periodStore where
  "storeS5 = (\<lambda>_. period 0 0)
     (0 := period 0 10, 1 := period 150 6, 2 := period 0 32, 3 := period 100 20, 4 := period 250 16)"

definition higherS5 :: "ref OCPP16ChargingSchedule" where
  "higherS5 = \<lparr>duration = 300, startSchedule = 0, chargingRateUnit = AMPERE,
     chargingSchedulePeriod = [0, 1]\<rparr>"

definition lowerS5 :: "ref OCPP16ChargingSchedule" where
  "lowerS5 = \<lparr>duration = 400, startSchedule = 200000, chargingRateUnit = AMPERE,
     chargingSchedulePeriod = [2, 3, 4]\<rparr>"

definition lowerOutside :: "ref OCPP16ChargingSchedule" where
  "lowerOutside = \<lparr>duration = 100, startSchedule = 700000, chargingRateUnit = AMPERE,
     chargingSchedulePeriod = [2]\<rparr>"

definition intervalS5 :: Interval where
  "intervalS5 = \<lparr>start = 0, end' = 600000\<rparr>"

text \<open>
  A schedule from \<open>t0\<close> lasting 600 s whose array is not in order (start periods 200, 0,
  100), and a composite interval that starts 150 s after it.
\<close>

definition storeU :: periodStore where
  "storeU = (\<lambda>_. period 0 0)(0 := period 200 16, 1 := period 0 10, 2 := period 100 6)"

definition unordered :: "ref OCPP16ChargingSchedule" where
  "unordered = \<lparr>duration = 600, startSchedule = 0, chargingRateUnit = AMPERE,
     chargingSchedulePeriod = [0, 1, 2]\<rparr>"

definition intervalLate :: Interval where
  "intervalLate = \<lparr>start = 150000, end' = 600000\<rparr>"

text \<open>
  Two schedules whose starts are half a second apart: the higher one starts at \<open>t0\<close>,
  lasts 300 s and has the single period (0, 10 A); the lower one starts at \<open>t0 + 500 ms\<close>,
  lasts 400 s and has the periods (0, 32 A) and (350, 16 A).
\<close>

definition storeH :: periodStore where
  "storeH = (\<lambda>_. period 0 0)(0 := period 0 10, 1 := period 0 32, 2 := period 350 16)"

definition higherOne :: "ref OCPP16ChargingSchedule" where
  "higherOne = \<lparr>duration = 300, startSchedule = 0, chargingRateUnit = AMPERE,
     chargingSchedulePeriod = [0]\<rparr>"

definition lowerHalfSecond :: "ref OCPP16ChargingSchedule" where
  "lowerHalfSecond = \<lparr>duration = 400, startSchedule = 500, chargingRateUnit = AMPERE,
     chargingSchedulePeriod = [1, 2]\<rparr>"

text \<open>
  Templates and collaborators for the meter values: a station of 7360 W on the connector,
  and a register query that returns the transaction register of connector 1.
\<close>

definition template :: "OCPP16MeterValueMeasurand option \<Rightarrow> MeterValueUnit option \<Rightarrow> string option
    \<Rightarrow> real option \<Rightarrow> real option \<Rightarrow> SampledValueTemplate" where
  "template m u v mn f = \<lparr>measurand = m, unit' = u, phase = None, location = None,
     context' = None, value' = v, minimumValue = mn, fluctuationPercent = f\<rparr>"

definition collaborators :: "SampledValueTemplate option \<Rightarrow> SampledValueTemplate option
    \<Rightarrow> (nat \<Rightarrow> real) \<Rightarrow> Collaborators" where
  "collaborators socTemplate energyTemplate draws =
     \<lparr>getSampledValueTemplate = (\<lambda>cid m p.
          if m = Some STATE_OF_CHARGE \<and> p = None then socTemplate
          else if m = None \<and> p = None then energyTemplate else None),
      getConnectorMaximumAvailablePower = (\<lambda>_. 7360),
      getEnergyActiveImportRegisterByTransactionId = transactionRegisterOf 1,
      clock = 0, random = draws,
      voltageSampledValues = [], powerSampledValues = (\<lambda>_. []),
      currentSampledValues = (\<lambda>_. [])\<rparr>"

definition chargingConnector :: "real \<Rightarrow> real \<Rightarrow> ConnectorStatus" where
  "chargingConnector a b = idleConnector\<lparr>status := Some Charging,
     transactionStarted := Some True, transactionId := Some 42,
     energyActiveImportRegisterValue := Some (Num a),
     transactionEnergyActiveImportRegisterValue := Some (Num b)\<rparr>"

definition chargingStation1 :: "real \<Rightarrow> real \<Rightarrow> ChargingStation" where
  "chargingStation1 a b = setConnectorStatus exampleStation 1 (chargingConnector a b)"

definition energyWh :: "string option \<Rightarrow> real option \<Rightarrow> SampledValueTemplate" where
  "energyWh v f = template (Some ENERGY_ACTIVE_IMPORT_REGISTER) (Some WATT_HOUR) v None f"

definition socPercent :: "string option \<Rightarrow> real option \<Rightarrow> SampledValueTemplate" where
  "socPercent v f = template (Some STATE_OF_CHARGE) (Some PERCENT) v None f"

definition powerCollaborators :: Collaborators where
  "powerCollaborators = (collaborators None None (\<lambda>_. 1 / 2))\<lparr>
     getSampledValueTemplate := (\<lambda>cid m p.
        if m = Some POWER_ACTIVE_IMPORT \<and> p = None
        then Some (template (Some POWER_ACTIVE_IMPORT) (Some WATT_UNIT) None None None)
        else None)\<rparr>"

section \<open>Properties\<close>

subsection \<open>setChargingProfile\<close>

lemma forEach_setCallback:
  "k + n = length xs \<Longrightarrow>
   forEach (setCallback cp) n k (xs, r) =
     (take k xs @ map (\<lambda>p. if sameProfile p cp then cp else p) (drop k xs),
      r \<or> (\<exists>p\<in>set (drop k xs). sameProfile p cp))"
proof (induction n arbitrary: k xs r)
  case 0
  then show ?case by simp
next
  case (Suc n)
  then have k: "k < length xs" by simp
  have d: "drop k xs = xs ! k # drop (Suc k) xs"
    using k by (simp add: Cons_nth_drop_Suc)
  show ?case
  proof (cases "sameProfile (xs ! k) cp")
    case True
    have "forEach (setCallback cp) (Suc n) k (xs, r)
        = forEach (setCallback cp) n (Suc k) (xs[k := cp], True)"
      using k True by (simp add: setCallback_def)
    also have "\<dots> = (take (Suc k) (xs[k := cp])
        @ map (\<lambda>p. if sameProfile p cp then cp else p) (drop (Suc k) (xs[k := cp])), True)"
      using Suc.prems by (subst Suc.IH) simp_all
    also have "take (Suc k) (xs[k := cp]) = take k xs @ [cp]"
      using k by (simp add: take_Suc_conv_app_nth)
    finally show ?thesis using True d by simp
  next
    case False
    have "forEach (setCallback cp) (Suc n) k (xs, r)
        = forEach (setCallback cp) n (Suc k) (xs, r)"
      using k False by (simp add: setCallback_def)
    also have "\<dots> = (take (Suc k) xs
        @ map (\<lambda>p. if sameProfile p cp then cp else p) (drop (Suc k) xs),
        r \<or> (\<exists>p\<in>set (drop (Suc k) xs). sameProfile p cp))"
      using Suc.prems by (subst Suc.IH) simp_all
    finally show ?thesis using False d k by (simp add: take_Suc_conv_app_nth)
  qed
qed

lemma setChargingProfile_initialised:
  assumes "getConnectorStatus st cid = Some c" and "chargingProfiles c = Some xs"
  shows "setChargingProfile st cid cp =
     Inr (setConnectorStatus st cid (c\<lparr>chargingProfiles :=
        Some (if \<exists>p\<in>set xs. sameProfile p cp
              then map (\<lambda>p. if sameProfile p cp then cp else p) xs
              else xs @ [cp])\<rparr>))"
proof (cases "xs = []")
  case True
  then show ?thesis using assms by (simp add: setChargingProfile_def)
next
  case False
  have "forEach (setCallback cp) (length xs) 0 (xs, False) =
      (map (\<lambda>p. if sameProfile p cp then cp else p) xs, \<exists>p\<in>set xs. sameProfile p cp)"
    using forEach_setCallback [of 0 "length xs" xs cp False] by simp
  moreover have "(\<forall>p\<in>set xs. \<not> sameProfile p cp) \<Longrightarrow>
      map (\<lambda>p. if sameProfile p cp then cp else p) xs = xs"
    by (simp add: map_idI)
  ultimately show ?thesis using assms False
    by (auto simp add: setChargingProfile_def)
qed

text \<open>
  C4. On a connector whose profile list is initialised, \<open>setChargingProfile\<close> puts \<open>cp\<close> in
  the place of every profile with \<open>cp\<close>'s id or with \<open>cp\<close>'s stack level and purpose, and
  appends \<open>cp\<close> when there is none. Installing a profile with id 1, stack level 2 and
  purpose TxProfile and then one with id 2, stack level 2 and purpose TxProfile on an
  empty list leaves exactly the second profile.
\<close>

theorem setChargingProfile_replaces_or_appends:
  "(getConnectorStatus st cid = Some c \<and> chargingProfiles c = Some xs \<longrightarrow>
      setChargingProfile st cid cp =
        Inr (setConnectorStatus st cid (c\<lparr>chargingProfiles :=
          Some (if \<exists>p\<in>set xs. sameProfile p cp
                then map (\<lambda>p. if sameProfile p cp then cp else p) xs
                else xs @ [cp])\<rparr>)))
   \<and> (getConnectorStatus st cid = Some c \<and> chargingProfiles c = Some []
        \<and> chargingProfileId cp1 = 1 \<and> stackLevel cp1 = 2 \<and> chargingProfilePurpose cp1 = TX_PROFILE
        \<and> chargingProfileId cp2 = 2 \<and> stackLevel cp2 = 2 \<and> chargingProfilePurpose cp2 = TX_PROFILE \<longrightarrow>
      (\<exists>st1 st2 c2. setChargingProfile st cid cp1 = Inr st1
          \<and> setChargingProfile st1 cid cp2 = Inr st2
          \<and> getConnectorStatus st2 cid = Some c2
          \<and> chargingProfiles c2 = Some [cp2]))"
proof (intro conjI impI)
  assume "getConnectorStatus st cid = Some c \<and> chargingProfiles c = Some xs"
  then show "setChargingProfile st cid cp =
        Inr (setConnectorStatus st cid (c\<lparr>chargingProfiles :=
          Some (if \<exists>p\<in>set xs. sameProfile p cp
                then map (\<lambda>p. if sameProfile p cp then cp else p) xs
                else xs @ [cp])\<rparr>))"
    using setChargingProfile_initialised by blast
next
  assume a: "getConnectorStatus st cid = Some c \<and> chargingProfiles c = Some []
        \<and> chargingProfileId cp1 = 1 \<and> stackLevel cp1 = 2 \<and> chargingProfilePurpose cp1 = TX_PROFILE
        \<and> chargingProfileId cp2 = 2 \<and> stackLevel cp2 = 2 \<and> chargingProfilePurpose cp2 = TX_PROFILE"
  define c1 where "c1 = c\<lparr>chargingProfiles := Some [cp1]\<rparr>"
  define st1 where "st1 = setConnectorStatus st cid c1"
  have s1: "setChargingProfile st cid cp1 = Inr st1"
    using a setChargingProfile_initialised [of st cid c "[]" cp1]
    by (simp add: st1_def c1_def)
  have g1: "getConnectorStatus st1 cid = Some c1"
    by (simp add: st1_def getConnectorStatus_def setConnectorStatus_def)
  have p1: "chargingProfiles c1 = Some [cp1]"
    by (simp add: c1_def)
  have same: "sameProfile cp1 cp2"
    using a by (simp add: sameProfile_def)
  define c2 where "c2 = c1\<lparr>chargingProfiles := Some [cp2]\<rparr>"
  have s2: "setChargingProfile st1 cid cp2 = Inr (setConnectorStatus st1 cid c2)"
    using setChargingProfile_initialised [OF g1 p1, of cp2] same
    by (simp add: c2_def)
  have "getConnectorStatus (setConnectorStatus st1 cid c2) cid = Some c2"
    by (simp add: getConnectorStatus_def setConnectorStatus_def)
  moreover have "chargingProfiles c2 = Some [cp2]"
    by (simp add: c2_def)
  ultimately show "\<exists>st1 st2 c2. setChargingProfile st cid cp1 = Inr st1
          \<and> setChargingProfile st1 cid cp2 = Inr st2
          \<and> getConnectorStatus st2 cid = Some c2
          \<and> chargingProfiles c2 = Some [cp2]"
    using s1 s2 by blast
qed

theorem setChargingProfile_replaces_or_appends_witness:
  "setChargingProfile
     (setConnectorStatus exampleStation 1
        (idleConnector\<lparr>chargingProfiles := Some [profile 1 2 TX_PROFILE, profile 7 0 TX_DEFAULT_PROFILE]\<rparr>))
     1 (profile 2 2 TX_PROFILE)
   = Inr (setConnectorStatus exampleStation 1
        (idleConnector\<lparr>chargingProfiles := Some [profile 2 2 TX_PROFILE, profile 7 0 TX_DEFAULT_PROFILE]\<rparr>))
   \<and> (\<exists>st1 st2 c2. setChargingProfile exampleStation 1 (profile 1 2 TX_PROFILE) = Inr st1
          \<and> setChargingProfile st1 1 (profile 2 2 TX_PROFILE) = Inr st2
          \<and> getConnectorStatus st2 1 = Some c2
          \<and> chargingProfiles c2 = Some [profile 2 2 TX_PROFILE])"
proof
  let ?c = "idleConnector\<lparr>chargingProfiles := Some [profile 1 2 TX_PROFILE, profile 7 0 TX_DEFAULT_PROFILE]\<rparr>"
  let ?st = "setConnectorStatus exampleStation 1 ?c"
  have "getConnectorStatus ?st 1 = Some ?c
      \<and> chargingProfiles ?c = Some [profile 1 2 TX_PROFILE, profile 7 0 TX_DEFAULT_PROFILE]"
    by (simp add: getConnectorStatus_def setConnectorStatus_def)
  then have "setChargingProfile ?st 1 (profile 2 2 TX_PROFILE) =
      Inr (setConnectorStatus ?st 1 (?c\<lparr>chargingProfiles :=
          Some (if \<exists>p\<in>set [profile 1 2 TX_PROFILE, profile 7 0 TX_DEFAULT_PROFILE].
                     sameProfile p (profile 2 2 TX_PROFILE)
                then map (\<lambda>p. if sameProfile p (profile 2 2 TX_PROFILE) then profile 2 2 TX_PROFILE else p)
                       [profile 1 2 TX_PROFILE, profile 7 0 TX_DEFAULT_PROFILE]
                else [profile 1 2 TX_PROFILE, profile 7 0 TX_DEFAULT_PROFILE] @ [profile 2 2 TX_PROFILE])\<rparr>))"
    using setChargingProfile_replaces_or_appends
      [of ?st 1 ?c "[profile 1 2 TX_PROFILE, profile 7 0 TX_DEFAULT_PROFILE]" "profile 2 2 TX_PROFILE"]
    by blast
  then show "setChargingProfile ?st 1 (profile 2 2 TX_PROFILE)
      = Inr (setConnectorStatus exampleStation 1
        (idleConnector\<lparr>chargingProfiles := Some [profile 2 2 TX_PROFILE, profile 7 0 TX_DEFAULT_PROFILE]\<rparr>))"
    by (simp add: sameProfile_def profile_def setConnectorStatus_def)
next
  have "getConnectorStatus exampleStation 1 = Some idleConnector \<and> chargingProfiles idleConnector = Some []
        \<and> chargingProfileId (profile 1 2 TX_PROFILE) = 1 \<and> stackLevel (profile 1 2 TX_PROFILE) = 2
        \<and> chargingProfilePurpose (profile 1 2 TX_PROFILE) = TX_PROFILE
        \<and> chargingProfileId (profile 2 2 TX_PROFILE) = 2 \<and> stackLevel (profile 2 2 TX_PROFILE) = 2
        \<and> chargingProfilePurpose (profile 2 2 TX_PROFILE) = TX_PROFILE"
    by (simp add: getConnectorStatus_def exampleStation_def idleConnector_def profile_def)
  then show "\<exists>st1 st2 c2. setChargingProfile exampleStation 1 (profile 1 2 TX_PROFILE) = Inr st1
          \<and> setChargingProfile st1 1 (profile 2 2 TX_PROFILE) = Inr st2
          \<and> getConnectorStatus st2 1 = Some c2
          \<and> chargingProfiles c2 = Some [profile 2 2 TX_PROFILE]"
    using setChargingProfile_replaces_or_appends
      [of exampleStation 1 idleConnector "[]" "profile 1 2 TX_PROFILE" "profile 1 2 TX_PROFILE" "profile 2 2 TX_PROFILE"]
    by blast
qed

subsection \<open>composeChargingSchedule and composeChargingSchedules\<close>

lemma kept_sorted:
  assumes "sorted (map f xs)"
  shows "sorted (map f (map snd (filter P (enumerate 0 xs))))"
proof -
  have "sorted (map (f \<circ> snd) (enumerate 0 xs))"
    using assms by (simp add: map_map [symmetric] del: map_map)
  then have "sorted (map (f \<circ> snd) (filter P (enumerate 0 xs)))"
    by (rule sorted_filter)
  then show ?thesis by simp
qed

lemma kept_distinct:
  assumes "distinct xs"
  shows "distinct (map snd (filter P (enumerate 0 xs)))"
proof -
  have "distinct (map snd (enumerate 0 xs))" using assms by simp
  then show ?thesis by (rule distinct_map_filter)
qed

lemma kept_subset: "set (map snd (filter P (enumerate 0 xs))) \<subseteq> set xs"
proof -
  have "set (filter P (enumerate 0 xs)) \<subseteq> set (enumerate 0 xs)"
    by simp
  then have "snd ` set (filter P (enumerate 0 xs)) \<subseteq> snd ` set (enumerate 0 xs)"
    by (rule image_mono)
  moreover have "snd ` set (enumerate 0 xs) = set xs"
    using arg_cong [OF map_snd_enumerate [of 0 xs], of set] by (simp only: set_map)
  ultimately show ?thesis
    by (simp only: set_map)
qed

lemma resetFirst_sorted:
  assumes "sorted (map (\<lambda>r. startPeriod (h r)) kept)" and "distinct kept"
    and "\<forall>r\<in>set kept. 0 \<le> startPeriod (h r)"
  shows "sorted (map (\<lambda>r. startPeriod (resetFirst h kept r)) kept)"
proof (cases kept)
  case Nil
  then show ?thesis by simp
next
  case (Cons r rs)
  have "r \<notin> set rs" using assms(2) Cons by simp
  then have "\<forall>q\<in>set rs. resetFirst h kept q = h q"
    using Cons by (auto simp add: resetFirst_def)
  then have same: "map (\<lambda>q. startPeriod (resetFirst h kept q)) rs = map (\<lambda>q. startPeriod (h q)) rs"
    by simp
  have first: "startPeriod (resetFirst h kept r) = 0"
    using Cons by (simp add: resetFirst_def)
  have "map (\<lambda>q. startPeriod (resetFirst h kept q)) kept = 0 # map (\<lambda>q. startPeriod (h q)) rs"
    unfolding Cons using same first Cons by simp
  moreover have "sorted (0 # map (\<lambda>q. startPeriod (h q)) rs)"
    using assms(1,3) Cons by auto
  ultimately show ?thesis by simp
qed

lemma composeChargingSchedule_sorted:
  assumes "composeChargingSchedule s I h = (Some p, s', h')"
    and "distinct (chargingSchedulePeriod s)"
    and "\<forall>r\<in>set (chargingSchedulePeriod s). 0 \<le> startPeriod (h r)"
  shows "sorted (map (\<lambda>r. startPeriod (h' r)) (chargingSchedulePeriod p))"
proof -
  let ?sorted = "sort_key (\<lambda>r. startPeriod (h r)) (chargingSchedulePeriod s)"
  have srt: "sorted (map (\<lambda>r. startPeriod (h r)) ?sorted)"
    by (rule sorted_sort_key)
  have dst: "distinct ?sorted" using assms(2) by simp
  have ov: "areIntervalsOverlapping (scheduleInterval s) I"
    using assms(1) by (auto simp add: composeChargingSchedule_def Let_def split: if_splits)
  show ?thesis
  proof (cases "isBefore (start (scheduleInterval s)) (start I)")
    case True
    let ?kept = "map snd (filter (keepFromStart h (start (scheduleInterval s)) I ?sorted)
                   (enumerate 0 ?sorted))"
    have p: "chargingSchedulePeriod p = ?kept" and h': "h' = resetFirst h ?kept"
      using assms(1) ov True by (auto simp add: composeChargingSchedule_def Let_def)
    have "set ?kept \<subseteq> set (chargingSchedulePeriod s)"
      using kept_subset [of _ ?sorted] by simp
    then have "\<forall>r\<in>set ?kept. 0 \<le> startPeriod (h r)"
      using assms(3) by blast
    then show ?thesis
      unfolding p h'
      using resetFirst_sorted [OF kept_sorted [OF srt] kept_distinct [OF dst]] by blast
  next
    case False
    note nb = this
    show ?thesis
    proof (cases "isAfter (end' (scheduleInterval s)) (end' I)")
      case True
      have "chargingSchedulePeriod p = filter (\<lambda>r. isWithinInterval
              (addSeconds (start (scheduleInterval s)) (startPeriod (h r))) I) ?sorted" and "h' = h"
        using assms(1) ov nb True by (auto simp add: composeChargingSchedule_def Let_def)
      then show ?thesis using sorted_filter [OF srt] by simp
    next
      case False
      have "chargingSchedulePeriod p = ?sorted" and "h' = h"
        using assms(1) ov nb False by (auto simp add: composeChargingSchedule_def Let_def)
      then show ?thesis using srt by simp
    qed
  qed
qed

lemma sort_key_distinct_map:
  "distinct (map f (sort_key f xs)) = distinct (map f xs)"
  by (simp add: distinct_map)

lemma kept_distinct_map:
  assumes "distinct (map f xs)"
  shows "distinct (map f (map snd (filter P (enumerate 0 xs))))"
proof -
  have "distinct (map (f \<circ> snd) (enumerate 0 xs))"
    using assms by (simp add: map_map [symmetric] del: map_map)
  then have "distinct (map (f \<circ> snd) (filter P (enumerate 0 xs)))"
    by (rule distinct_map_filter)
  then show ?thesis by simp
qed

lemma resetFirst_distinct:
  assumes "sorted (map (\<lambda>r. startPeriod (h r)) kept)"
    and "distinct (map (\<lambda>r. startPeriod (h r)) kept)"
    and "\<forall>r\<in>set kept. 0 \<le> startPeriod (h r)"
  shows "distinct (map (\<lambda>r. startPeriod (resetFirst h kept r)) kept)"
proof (cases kept)
  case Nil
  then show ?thesis by simp
next
  case (Cons r rs)
  have later: "\<forall>q\<in>set rs. startPeriod (h r) < startPeriod (h q)"
    using assms(1,2) Cons by (auto simp add: order_less_le)
  then have "r \<notin> set rs" by auto
  then have "\<forall>q\<in>set rs. resetFirst h kept q = h q"
    using Cons by (auto simp add: resetFirst_def)
  then have same: "map (\<lambda>q. startPeriod (resetFirst h kept q)) rs = map (\<lambda>q. startPeriod (h q)) rs"
    by simp
  have first: "startPeriod (resetFirst h kept r) = 0"
    using Cons by (simp add: resetFirst_def)
  have eq: "map (\<lambda>q. startPeriod (resetFirst h kept q)) kept = 0 # map (\<lambda>q. startPeriod (h q)) rs"
    unfolding Cons using same first Cons by simp
  have "0 \<le> startPeriod (h r)" using assms(3) Cons by simp
  then have "\<forall>q\<in>set rs. 0 < startPeriod (h q)" using later by fastforce
  then have "0 \<notin> set (map (\<lambda>q. startPeriod (h q)) rs)" by auto
  moreover have "distinct (map (\<lambda>q. startPeriod (h q)) rs)" using assms(2) Cons by simp
  ultimately show ?thesis unfolding eq by simp
qed

lemma composeChargingSchedule_distinct:
  assumes "composeChargingSchedule s I h = (Some p, s', h')"
    and "distinct (map (\<lambda>r. startPeriod (h r)) (chargingSchedulePeriod s))"
    and "\<forall>r\<in>set (chargingSchedulePeriod s). 0 \<le> startPeriod (h r)"
  shows "distinct (map (\<lambda>r. startPeriod (h' r)) (chargingSchedulePeriod p))"
proof -
  let ?sorted = "sort_key (\<lambda>r. startPeriod (h r)) (chargingSchedulePeriod s)"
  have srt: "sorted (map (\<lambda>r. startPeriod (h r)) ?sorted)"
    by (rule sorted_sort_key)
  have dst: "distinct (map (\<lambda>r. startPeriod (h r)) ?sorted)"
    using assms(2) by (simp only: sort_key_distinct_map)
  have ov: "areIntervalsOverlapping (scheduleInterval s) I"
    using assms(1) by (auto simp add: composeChargingSchedule_def Let_def split: if_splits)
  show ?thesis
  proof (cases "isBefore (start (scheduleInterval s)) (start I)")
    case True
    let ?kept = "map snd (filter (keepFromStart h (start (scheduleInterval s)) I ?sorted)
                   (enumerate 0 ?sorted))"
    have p: "chargingSchedulePeriod p = ?kept" and h': "h' = resetFirst h ?kept"
      using assms(1) ov True by (auto simp add: composeChargingSchedule_def Let_def)
    have "set ?kept \<subseteq> set (chargingSchedulePeriod s)"
      using kept_subset [of _ ?sorted] by simp
    then have "\<forall>r\<in>set ?kept. 0 \<le> startPeriod (h r)"
      using assms(3) by blast
    then show ?thesis
      unfolding p h'
      using resetFirst_distinct [OF kept_sorted [OF srt] kept_distinct_map [OF dst]] by blast
  next
    case False
    note nb = this
    show ?thesis
    proof (cases "isAfter (end' (scheduleInterval s)) (end' I)")
      case True
      have "chargingSchedulePeriod p = filter (\<lambda>r. isWithinInterval
              (addSeconds (start (scheduleInterval s)) (startPeriod (h r))) I) ?sorted" and "h' = h"
        using assms(1) ov nb True by (auto simp add: composeChargingSchedule_def Let_def)
      then show ?thesis using distinct_map_filter [OF dst] by simp
    next
      case False
      have "chargingSchedulePeriod p = ?sorted" and "h' = h"
        using assms(1) ov nb False by (auto simp add: composeChargingSchedule_def Let_def)
      then show ?thesis using dst by simp
    qed
  qed
qed

lemma composeChargingSchedule_returns:
  assumes "areIntervalsOverlapping (scheduleInterval s) I"
  shows "\<exists>p s' h'. composeChargingSchedule s I h = (Some p, s', h')"
  using assms by (simp add: composeChargingSchedule_def Let_def)

lemma composeChargingSchedules_returns:
  assumes "higher \<noteq> None \<or> lower \<noteq> None"
    and "\<forall>s\<in>set_option higher \<union> set_option lower.
           areIntervalsOverlapping (scheduleInterval s) I"
  shows "\<exists>r. fst (composeChargingSchedules higher lower I h) = Inr (Some r)"
proof (cases higher)
  case None
  then obtain lo where lo: "lower = Some lo" using assms(1) by auto
  obtain p s' h' where "composeChargingSchedule lo I h = (Some p, s', h')"
    using composeChargingSchedule_returns [of lo I h] assms(2) lo by auto
  then show ?thesis using None lo by (simp add: composeChargingSchedules_def)
next
  case (Some hi)
  note hs = this
  obtain p s' h1 where ph: "composeChargingSchedule hi I h = (Some p, s', h1)"
    using composeChargingSchedule_returns [of hi I h] assms(2) hs by auto
  show ?thesis
  proof (cases lower)
    case None
    then show ?thesis using hs ph by (simp add: composeChargingSchedules_def)
  next
    case (Some lo)
    obtain q t' h2 where "composeChargingSchedule lo I h1 = (Some q, t', h2)"
      using composeChargingSchedule_returns [of lo I h1] assms(2) Some by auto
    then show ?thesis using hs Some ph
      by (simp add: composeChargingSchedules_def Let_def)
  qed
qed

lemma returned_periods_sorted:
  assumes "fst (composeChargingSchedules higher lower I h) = Inr (Some r)"
    and "\<forall>s\<in>set_option higher \<union> set_option lower.
           distinct (chargingSchedulePeriod s)
           \<and> (\<forall>p\<in>set (chargingSchedulePeriod s). 0 \<le> startPeriod (h p))"
  shows "sorted (map startPeriod (chargingSchedulePeriod r))"
proof (cases higher)
  case None
  note hn = this
  show ?thesis
  proof (cases lower)
    case None
    then show ?thesis using assms(1) hn by (simp add: composeChargingSchedules_def)
  next
    case (Some lo)
    obtain p s' h' where c: "composeChargingSchedule lo I h = (p, s', h')"
      by (cases "composeChargingSchedule lo I h") auto
    then obtain q where q: "p = Some q" and r: "r = readSchedule h' q"
      using assms(1) hn Some by (auto simp add: composeChargingSchedules_def)
    have "sorted (map (\<lambda>r. startPeriod (h' r)) (chargingSchedulePeriod q))"
      using composeChargingSchedule_sorted [of lo I h q s' h'] c q assms(2) Some by simp
    then show ?thesis by (simp add: r readSchedule_def comp_def)
  qed
next
  case (Some hi)
  note hs = this
  show ?thesis
  proof (cases lower)
    case None
    obtain p s' h' where c: "composeChargingSchedule hi I h = (p, s', h')"
      by (cases "composeChargingSchedule hi I h") auto
    then obtain q where q: "p = Some q" and r: "r = readSchedule h' q"
      using assms(1) hs None by (auto simp add: composeChargingSchedules_def)
    have "sorted (map (\<lambda>r. startPeriod (h' r)) (chargingSchedulePeriod q))"
      using composeChargingSchedule_sorted [of hi I h q s' h'] c q assms(2) hs by simp
    then show ?thesis by (simp add: r readSchedule_def comp_def)
  next
    case (Some lo)
    have "\<exists>xs. chargingSchedulePeriod r = sort_key startPeriod xs"
      using assms(1) hs Some
      by (auto simp add: composeChargingSchedules_def Let_def
          split: prod.splits option.splits if_splits)
    then show ?thesis using sorted_sort_key by auto
  qed
qed

lemma returned_periods_distinct:
  assumes "fst (composeChargingSchedules higher lower I h) = Inr (Some r)"
    and "higher = None \<or> lower = None"
    and "\<forall>s\<in>set_option higher \<union> set_option lower.
           distinct (map (\<lambda>p. startPeriod (h p)) (chargingSchedulePeriod s))
           \<and> (\<forall>p\<in>set (chargingSchedulePeriod s). 0 \<le> startPeriod (h p))"
  shows "distinct (map startPeriod (chargingSchedulePeriod r))"
proof -
  have "\<exists>s. (higher = Some s \<and> lower = None) \<or> (higher = None \<and> lower = Some s)"
    using assms(1,2) by (cases higher; cases lower) (auto simp add: composeChargingSchedules_def)
  then obtain s where s: "(higher = Some s \<and> lower = None) \<or> (higher = None \<and> lower = Some s)"
    by blast
  obtain p s' h' where c: "composeChargingSchedule s I h = (p, s', h')"
    by (cases "composeChargingSchedule s I h") auto
  then obtain q where q: "p = Some q" and r: "r = readSchedule h' q"
    using assms(1) s by (auto simp add: composeChargingSchedules_def)
  have "distinct (map (\<lambda>r. startPeriod (h' r)) (chargingSchedulePeriod q))"
    using composeChargingSchedule_distinct [of s I h q s' h'] c q assms(3) s by auto
  then show ?thesis by (simp add: r readSchedule_def comp_def)
qed

lemma enumerate_as_map: "enumerate 0 xs = map (\<lambda>i. (i, xs ! i)) [0..<length xs]"
proof -
  have "enumerate 0 xs = zip [0..<length xs] (map (\<lambda>i. xs ! i) [0..<length xs])"
    by (simp only: enumerate_eq_zip map_nth add_0)
  then show ?thesis
    by (simp only: zip_map2 zip_same_conv_map map_map comp_def prod.case)
qed

lemma filter_enumerate:
  "map snd (filter P (enumerate 0 xs))
   = map (\<lambda>i. xs ! i) (filter (\<lambda>i. P (i, xs ! i)) [0..<length xs])"
  by (simp add: enumerate_as_map filter_map comp_def)

lemma keepLower_higherFirst:
  "map snd (filter (keepLower h True hiInt loInt periods) (enumerate 0 periods))
   = lowerSurvivors h (start loInt) \<lparr>start = start loInt, end' = end' hiInt\<rparr> periods"
proof -
  have "keepLower h True hiInt loInt periods (i, periods ! i) =
      (\<not> isWithinInterval (addSeconds (start loInt) (startPeriod (h (periods ! i))))
            \<lparr>start = start loInt, end' = end' hiInt\<rparr>
       \<and> \<not> (Suc i < length periods
            \<and> isWithinInterval (addSeconds (start loInt) (startPeriod (h (periods ! Suc i))))
                 \<lparr>start = start loInt, end' = end' hiInt\<rparr>))" for i
    by (auto simp add: keepLower_def)
  then show ?thesis
    by (simp add: filter_enumerate lowerSurvivors_def)
qed

lemma project_higherS5:
  "composeChargingSchedule higherS5 intervalS5 storeS5 = (Some higherS5, higherS5, storeS5)"
  by (simp add: composeChargingSchedule_def scheduleInterval_def areIntervalsOverlapping_def
      isBefore_def isAfter_def addSeconds_def higherS5_def intervalS5_def storeS5_def period_def
      Let_def)

lemma project_lowerS5:
  "composeChargingSchedule lowerS5 intervalS5 storeS5 = (Some lowerS5, lowerS5, storeS5)"
  by (simp add: composeChargingSchedule_def scheduleInterval_def areIntervalsOverlapping_def
      isBefore_def isAfter_def addSeconds_def lowerS5_def intervalS5_def storeS5_def period_def
      Let_def)

lemma project_unordered:
  "composeChargingSchedule unordered intervalLate storeU =
   (Some \<lparr>duration = 450, startSchedule = 150000, chargingRateUnit = AMPERE,
          chargingSchedulePeriod = [2, 0]\<rparr>,
    unordered\<lparr>chargingSchedulePeriod := [1, 2, 0]\<rparr>, storeU(2 := period 0 6))"
  by (simp add: composeChargingSchedule_def scheduleInterval_def areIntervalsOverlapping_def
      isBefore_def isAfter_def addSeconds_def unordered_def intervalLate_def storeU_def period_def
      keepFromStart_def resetFirst_def isWithinInterval_def differenceInSeconds_def
      signed_divide_int_def enumerate_eq_zip Let_def)

text \<open>
  C1, as the code has it. Both schedules are defined (with durations that are not
  negative, the composite interval with its start not after its end), both project onto
  the composite interval, the projected intervals overlap and the higher one starts
  first. Then the
  result holds one period for each period of the projected higher schedule, with its
  limit and its number of phases (the theorem says nothing of the start period these
  get), and of the projected lower schedule the periods whose start instant is outside
  the interval from the lower start to the higher end and whose successor's start instant
  is not inside it. The first of these survivors has its \<^verbatim>\<open>startPeriod\<close> reset to 0 before
  every survivor is moved by the seconds from the higher start to the lower start. The
  whole sequence is sorted by \<^verbatim>\<open>startPeriod\<close>.
\<close>

theorem composeChargingSchedules_overlap_higher_first:
  assumes vi: "validInterval I" "0 \<le> duration higher" "0 \<le> duration lower"
      and ph: "composeChargingSchedule higher I h = (Some cH, higher', h1)"
      and pl: "composeChargingSchedule lower I h1 = (Some cL, lower', h2)"
      and ov: "areIntervalsOverlapping (scheduleInterval cH) (scheduleInterval cL)"
      and hf: "isBefore (startSchedule cH) (startSchedule cL)"
  shows "\<exists>r hs. fst (composeChargingSchedules (Some higher) (Some lower) I h) = Inr (Some r)
      \<and> map limit hs = map (\<lambda>p. limit (h2 p)) (chargingSchedulePeriod cH)
      \<and> map numberPhases hs = map (\<lambda>p. numberPhases (h2 p)) (chargingSchedulePeriod cH)
      \<and> chargingSchedulePeriod r = sort_key startPeriod
          (hs @ offsetSurvivors h2 (differenceInSeconds (startSchedule cL) (startSchedule cH))
                  (lowerSurvivors h2 (startSchedule cL)
                     \<lparr>start = startSchedule cL, end' = end' (scheduleInterval cH)\<rparr>
                     (chargingSchedulePeriod cL)))"
proof -
  let ?hi = "scheduleInterval cH" and ?lo = "scheduleInterval cL"
  let ?surv = "lowerSurvivors h2 (startSchedule cL)
                 \<lparr>start = startSchedule cL, end' = end' ?hi\<rparr> (chargingSchedulePeriod cL)"
  let ?hs = "map (\<lambda>r. higherPeriod True ?hi ?lo (h2 r)) (chargingSchedulePeriod cH)"
  have st: "start ?hi = startSchedule cH" "start ?lo = startSchedule cL"
    by (simp_all add: scheduleInterval_def)
  have kept: "map snd (filter (keepLower h2 True ?hi ?lo (chargingSchedulePeriod cL))
                 (enumerate 0 (chargingSchedulePeriod cL))) = ?surv"
    using keepLower_higherFirst [of h2 ?hi ?lo "chargingSchedulePeriod cL"] by (simp add: st)
  have low: "map (\<lambda>r. lowerPeriod True ?hi ?lo (resetFirst h2 ?surv r)) ?surv
      = offsetSurvivors h2 (differenceInSeconds (startSchedule cL) (startSchedule cH)) ?surv"
    by (simp add: offsetSurvivors_def lowerPeriod_def st Let_def)
  have "fst (composeChargingSchedules (Some higher) (Some lower) I h) =
      Inr (Some \<lparr>duration = differenceInSeconds (end' ?lo) (start ?hi),
                 startSchedule = start ?hi, chargingRateUnit = chargingRateUnit cH,
                 chargingSchedulePeriod = sort_key startPeriod
                   (?hs @ map (\<lambda>r. lowerPeriod True ?hi ?lo (resetFirst h2 ?surv r)) ?surv)\<rparr>)"
    using ph pl ov hf
    by (simp add: composeChargingSchedules_def Let_def st kept del: map_map)
  moreover have "map limit ?hs = map (\<lambda>p. limit (h2 p)) (chargingSchedulePeriod cH)"
    by (simp add: higherPeriod_def comp_def)
  moreover have "map numberPhases ?hs = map (\<lambda>p. numberPhases (h2 p)) (chargingSchedulePeriod cH)"
    by (simp add: higherPeriod_def comp_def)
  ultimately show ?thesis
    unfolding low
    by (intro exI [of _ "\<lparr>duration = differenceInSeconds (end' ?lo) (start ?hi),
                 startSchedule = start ?hi, chargingRateUnit = chargingRateUnit cH,
                 chargingSchedulePeriod = sort_key startPeriod
                   (?hs @ offsetSurvivors h2
                      (differenceInSeconds (startSchedule cL) (startSchedule cH)) ?surv)\<rparr>"]
        exI [of _ ?hs]) simp
qed

text \<open>
  The theorem at the schedules of scenario S5: the lower schedule contributes its period
  of limit 16 alone, at 200 s.
\<close>

theorem composeChargingSchedules_overlap_higher_first_witness:
  "\<exists>r hs. fst (composeChargingSchedules (Some higherS5) (Some lowerS5) intervalS5 storeS5)
            = Inr (Some r)
      \<and> map limit hs = [10, 6]
      \<and> chargingSchedulePeriod r = sort_key startPeriod (hs @ [period 200 16])"
proof -
  have ov: "areIntervalsOverlapping (scheduleInterval higherS5) (scheduleInterval lowerS5)"
    by (simp add: areIntervalsOverlapping_def scheduleInterval_def addSeconds_def
        higherS5_def lowerS5_def)
  have hf: "isBefore (startSchedule higherS5) (startSchedule lowerS5)"
    by (simp add: isBefore_def higherS5_def lowerS5_def)
  have lim: "map (\<lambda>p. limit (storeS5 p)) (chargingSchedulePeriod higherS5) = [10, 6]"
    by (simp add: higherS5_def storeS5_def period_def)
  have surv: "offsetSurvivors storeS5
        (differenceInSeconds (startSchedule lowerS5) (startSchedule higherS5))
        (lowerSurvivors storeS5 (startSchedule lowerS5)
           \<lparr>start = startSchedule lowerS5, end' = end' (scheduleInterval higherS5)\<rparr>
           (chargingSchedulePeriod lowerS5)) = [period 200 16]"
    by code_simp
  have vi: "validInterval intervalS5" "0 \<le> duration higherS5" "0 \<le> duration lowerS5"
    by (simp_all add: validInterval_def intervalS5_def higherS5_def lowerS5_def)
  from composeChargingSchedules_overlap_higher_first
    [OF vi project_higherS5 project_lowerS5 ov hf]
  obtain r hs where
    "fst (composeChargingSchedules (Some higherS5) (Some lowerS5) intervalS5 storeS5) = Inr (Some r)"
    and "map limit hs = map (\<lambda>p. limit (storeS5 p)) (chargingSchedulePeriod higherS5)"
    and "chargingSchedulePeriod r = sort_key startPeriod
          (hs @ offsetSurvivors storeS5
                  (differenceInSeconds (startSchedule lowerS5) (startSchedule higherS5))
                  (lowerSurvivors storeS5 (startSchedule lowerS5)
                     \<lparr>start = startSchedule lowerS5, end' = end' (scheduleInterval higherS5)\<rparr>
                     (chargingSchedulePeriod lowerS5)))"
    by blast
  then have "fst (composeChargingSchedules (Some higherS5) (Some lowerS5) intervalS5 storeS5)
            = Inr (Some r)
      \<and> map limit hs = [10, 6]
      \<and> chargingSchedulePeriod r = sort_key startPeriod (hs @ [period 200 16])"
    by (simp only: lim surv)
  then show ?thesis by (intro exI)
qed

text \<open>
  C1 as the spec states it fails at scenario S5: the call returns the periods (0, 10 A),
  (0, 6 A), (200, 16 A), not (0, 10 A), (150, 6 A), (450, 16 A).
\<close>

theorem composeChargingSchedules_S5_result:
  "fst (composeChargingSchedules (Some higherS5) (Some lowerS5) intervalS5 storeS5)
     = Inr (Some \<lparr>duration = 600, startSchedule = 0, chargingRateUnit = AMPERE,
          chargingSchedulePeriod = [period 0 10, period 0 6, period 200 16]\<rparr>)
   \<and> [period 0 10, period 0 6, period 200 16] \<noteq> [period 0 10, period 150 6, period 450 16]"
  by code_simp

text \<open>
  C2, as the code has it. The argument schedules hold distinct period objects with start
  periods that are not negative (durations not negative, the composite interval with its
  start not after its end). When at least one schedule is defined and every defined
  schedule overlaps the composite interval, \<open>composeChargingSchedules\<close> returns a
  schedule. Whenever it returns a schedule, the returned periods are in ascending order
  of \<^verbatim>\<open>startPeriod\<close>; and when only one schedule is defined and no two of its periods
  share a start period, no two of the returned periods share a start period.
\<close>

theorem composeChargingSchedules_sorted_distinct:
  assumes "validInterval I"
    and "\<forall>s\<in>set_option higher \<union> set_option lower.
           0 \<le> duration s \<and> distinct (chargingSchedulePeriod s)
           \<and> (\<forall>p\<in>set (chargingSchedulePeriod s). 0 \<le> startPeriod (h p))"
  shows "((higher \<noteq> None \<or> lower \<noteq> None)
          \<and> (\<forall>s\<in>set_option higher \<union> set_option lower.
                areIntervalsOverlapping (scheduleInterval s) I)
          \<longrightarrow> (\<exists>r. fst (composeChargingSchedules higher lower I h) = Inr (Some r)))
       \<and> (\<forall>r. fst (composeChargingSchedules higher lower I h) = Inr (Some r) \<longrightarrow>
             sorted (map startPeriod (chargingSchedulePeriod r))
             \<and> ((higher = None \<or> lower = None)
                 \<and> (\<forall>s\<in>set_option higher \<union> set_option lower.
                       distinct (map (\<lambda>p. startPeriod (h p)) (chargingSchedulePeriod s)))
                 \<longrightarrow> distinct (map startPeriod (chargingSchedulePeriod r))))"
proof (intro conjI impI allI)
  assume "(higher \<noteq> None \<or> lower \<noteq> None)
          \<and> (\<forall>s\<in>set_option higher \<union> set_option lower.
                areIntervalsOverlapping (scheduleInterval s) I)"
  then show "\<exists>r. fst (composeChargingSchedules higher lower I h) = Inr (Some r)"
    using composeChargingSchedules_returns [of higher lower I h] by blast
next
  fix r
  assume "fst (composeChargingSchedules higher lower I h) = Inr (Some r)"
  then show "sorted (map startPeriod (chargingSchedulePeriod r))"
    using returned_periods_sorted [of higher lower I h r] assms(2) by blast
next
  fix r
  assume r: "fst (composeChargingSchedules higher lower I h) = Inr (Some r)"
    and one: "(higher = None \<or> lower = None)
        \<and> (\<forall>s\<in>set_option higher \<union> set_option lower.
              distinct (map (\<lambda>p. startPeriod (h p)) (chargingSchedulePeriod s)))"
  have "\<forall>s\<in>set_option higher \<union> set_option lower.
           distinct (map (\<lambda>p. startPeriod (h p)) (chargingSchedulePeriod s))
           \<and> (\<forall>p\<in>set (chargingSchedulePeriod s). 0 \<le> startPeriod (h p))"
    using one assms(2) by blast
  then show "distinct (map startPeriod (chargingSchedulePeriod r))"
    using returned_periods_distinct [of higher lower I h r] r one by blast
qed

text \<open>
  The theorem at the schedule \<open>unordered\<close> (start periods 200, 0, 100) alone, with a
  composite interval that starts 150 s after it: the call returns the periods (0, 6 A)
  and (200, 16 A), in order and with different start periods.
\<close>

theorem composeChargingSchedules_sorted_distinct_witness:
  "(\<exists>r. fst (composeChargingSchedules (Some unordered) None intervalLate storeU) = Inr (Some r))
   \<and> fst (composeChargingSchedules (Some unordered) None intervalLate storeU)
     = Inr (Some \<lparr>duration = 450, startSchedule = 150000, chargingRateUnit = AMPERE,
          chargingSchedulePeriod = [period 0 6, period 200 16]\<rparr>)
   \<and> sorted (map startPeriod [period 0 6, period 200 16])
   \<and> distinct (map startPeriod [period 0 6, period 200 16])"
proof -
  have e: "fst (composeChargingSchedules (Some unordered) None intervalLate storeU)
     = Inr (Some \<lparr>duration = 450, startSchedule = 150000, chargingRateUnit = AMPERE,
          chargingSchedulePeriod = [period 0 6, period 200 16]\<rparr>)"
    apply (simp add: composeChargingSchedules_def project_unordered)
    apply (simp add: readSchedule_def storeU_def)
    done
  have v: "validInterval intervalLate"
    by (simp add: validInterval_def intervalLate_def)
  have d: "\<forall>s\<in>set_option (Some unordered) \<union> set_option None.
           0 \<le> duration s \<and> distinct (chargingSchedulePeriod s)
           \<and> (\<forall>p\<in>set (chargingSchedulePeriod s). 0 \<le> startPeriod (storeU p))"
    by (simp add: unordered_def storeU_def period_def)
  have o: "(Some unordered \<noteq> None \<or> (None :: ref OCPP16ChargingSchedule option) \<noteq> None)
       \<and> (\<forall>s\<in>set_option (Some unordered) \<union> set_option None.
             areIntervalsOverlapping (scheduleInterval s) intervalLate)"
    by (simp add: areIntervalsOverlapping_def scheduleInterval_def addSeconds_def
        unordered_def intervalLate_def)
  have k: "(Some unordered = None \<or> (None :: ref OCPP16ChargingSchedule option) = None)
       \<and> (\<forall>s\<in>set_option (Some unordered) \<union> set_option None.
             distinct (map (\<lambda>p. startPeriod (storeU p)) (chargingSchedulePeriod s)))"
    by (simp add: unordered_def storeU_def period_def)
  note t = composeChargingSchedules_sorted_distinct [OF v d]
  from t o have "\<exists>r. fst (composeChargingSchedules (Some unordered) None intervalLate storeU)
      = Inr (Some r)"
    by blast
  moreover from t e k have
    "sorted (map startPeriod (chargingSchedulePeriod
        \<lparr>duration = 450, startSchedule = 150000, chargingRateUnit = AMPERE,
          chargingSchedulePeriod = [period 0 6, period 200 16]\<rparr>))
     \<and> distinct (map startPeriod (chargingSchedulePeriod
        \<lparr>duration = 450, startSchedule = 150000, chargingRateUnit = AMPERE,
          chargingSchedulePeriod = [period 0 6, period 200 16]\<rparr>))"
    by blast
  ultimately show ?thesis using e by simp
qed

text \<open>
  C2 as the spec states it fails. The higher schedule has the single period (0, 10 A)
  and starts 500 ms before the lower one, whose periods are (0, 32 A) and (350, 16 A):
  in each schedule the start periods differ. The lower period at 0 lies in the overlap
  and is dropped; the period at 350 survives, is the first survivor and so has its start
  period set to 0, and is then moved by the whole seconds between the two starts, which
  is 0. The call returns (0, 10 A), (0, 16 A): two periods with the same start period.
  And for two defined schedules of which only the higher one overlaps the composite
  interval the call returns no schedule: it throws.
\<close>

theorem composeChargingSchedules_equal_startPeriods:
  "fst (composeChargingSchedules (Some higherOne) (Some lowerHalfSecond) intervalS5 storeH)
     = Inr (Some \<lparr>duration = 400, startSchedule = 0, chargingRateUnit = AMPERE,
          chargingSchedulePeriod = [period 0 10, period 0 16]\<rparr>)
   \<and> distinct (map (\<lambda>p. startPeriod (storeH p)) (chargingSchedulePeriod higherOne))
   \<and> distinct (map (\<lambda>p. startPeriod (storeH p)) (chargingSchedulePeriod lowerHalfSecond))
   \<and> \<not> distinct (map startPeriod [period 0 10, period 0 16])
   \<and> areIntervalsOverlapping (scheduleInterval higherS5) intervalS5
   \<and> fst (composeChargingSchedules (Some higherS5) (Some lowerOutside) intervalS5 storeS5)
       = Inl TypeError"
  by code_simp

text \<open>
  C10. The composition functions write to their arguments. Whenever the schedule
  (of a duration that is not negative) overlaps the composite interval (whose start is
  not after its end), \<open>composeChargingSchedule\<close> leaves the argument's array
  sorted by \<^verbatim>\<open>startPeriod\<close>; when the schedule starts before the composite interval, the
  first period of the result is a period object of the argument and its
  \<^verbatim>\<open>startPeriod\<close> is 0 afterwards. For the schedule \<open>unordered\<close> both change the
  argument: its array [0, 1, 2] becomes [1, 2, 0] and the period that started at 100 now
  starts at 0. \<open>composeChargingSchedules\<close> on scenario S5 overwrites the start period 250
  of the lower schedule's last period with 0.
\<close>

theorem composition_writes_to_its_arguments:
  "(validInterval I \<and> 0 \<le> duration s \<and> areIntervalsOverlapping (scheduleInterval s) I \<longrightarrow>
      chargingSchedulePeriod (fst (snd (composeChargingSchedule s I h)))
        = sort_key (\<lambda>r. startPeriod (h r)) (chargingSchedulePeriod s))
   \<and> (validInterval I \<and> 0 \<le> duration s \<and> isBefore (startSchedule s) (start I)
        \<and> composeChargingSchedule s I h = (Some p, s', h')
        \<and> chargingSchedulePeriod p = r # rs \<longrightarrow>
      r \<in> set (chargingSchedulePeriod s) \<and> startPeriod (h' r) = 0)
   \<and> composeChargingSchedule unordered intervalLate storeU =
        (Some \<lparr>duration = 450, startSchedule = 150000, chargingRateUnit = AMPERE,
               chargingSchedulePeriod = [2, 0]\<rparr>,
         unordered\<lparr>chargingSchedulePeriod := [1, 2, 0]\<rparr>, storeU(2 := period 0 6))
   \<and> chargingSchedulePeriod unordered = [0, 1, 2]
   \<and> storeU 2 = period 100 6
   \<and> snd (snd (snd (composeChargingSchedules (Some higherS5) (Some lowerS5) intervalS5 storeS5))) 4
        = period 0 16
   \<and> storeS5 4 = period 250 16
   \<and> chargingSchedulePeriod lowerS5 = [2, 3, 4]"
proof (intro conjI impI)
  assume "validInterval I \<and> 0 \<le> duration s \<and> areIntervalsOverlapping (scheduleInterval s) I"
  then show "chargingSchedulePeriod (fst (snd (composeChargingSchedule s I h)))
        = sort_key (\<lambda>r. startPeriod (h r)) (chargingSchedulePeriod s)"
    by (simp add: composeChargingSchedule_def Let_def)
next
  assume a: "validInterval I \<and> 0 \<le> duration s \<and> isBefore (startSchedule s) (start I)
        \<and> composeChargingSchedule s I h = (Some p, s', h')
        \<and> chargingSchedulePeriod p = r # rs"
  let ?sorted = "sort_key (\<lambda>r. startPeriod (h r)) (chargingSchedulePeriod s)"
  let ?kept = "map snd (filter (keepFromStart h (start (scheduleInterval s)) I ?sorted)
                 (enumerate 0 ?sorted))"
  have ov: "areIntervalsOverlapping (scheduleInterval s) I"
    using a by (auto simp add: composeChargingSchedule_def Let_def split: if_splits)
  have b: "isBefore (start (scheduleInterval s)) (start I)"
    using a by (simp add: scheduleInterval_def)
  have p: "chargingSchedulePeriod p = ?kept" and h': "h' = resetFirst h ?kept"
    using a ov b by (auto simp add: composeChargingSchedule_def Let_def)
  have k: "?kept = r # rs" using a p by simp
  have "r \<in> set ?kept" by (simp only: k list.set_intros)
  then have "r \<in> set ?sorted" using kept_subset [of _ ?sorted] by blast
  then show "r \<in> set (chargingSchedulePeriod s)" by simp
  show "startPeriod (h' r) = 0"
    unfolding h' k by (simp add: resetFirst_def)
next
  show "composeChargingSchedule unordered intervalLate storeU =
        (Some \<lparr>duration = 450, startSchedule = 150000, chargingRateUnit = AMPERE,
               chargingSchedulePeriod = [2, 0]\<rparr>,
         unordered\<lparr>chargingSchedulePeriod := [1, 2, 0]\<rparr>, storeU(2 := period 0 6))"
    by (rule project_unordered)
next
  show "chargingSchedulePeriod unordered = [0, 1, 2]"
    by (simp add: unordered_def)
next
  show "storeU 2 = period 100 6"
    by (simp add: storeU_def)
next
  show "snd (snd (snd (composeChargingSchedules (Some higherS5) (Some lowerS5) intervalS5 storeS5))) 4
        = period 0 16"
    by code_simp
next
  show "storeS5 4 = period 250 16"
    by (simp add: storeS5_def)
next
  show "chargingSchedulePeriod lowerS5 = [2, 3, 4]"
    by (simp add: lowerS5_def)
qed

theorem composition_writes_to_its_arguments_witness:
  "chargingSchedulePeriod (fst (snd (composeChargingSchedule unordered intervalLate storeU)))
     = [1, 2, 0]
   \<and> 2 \<in> set (chargingSchedulePeriod unordered)
   \<and> startPeriod ((storeU(2 := period 0 6)) 2) = 0
   \<and> startPeriod (storeU 2) = 100"
proof -
  have ov: "areIntervalsOverlapping (scheduleInterval unordered) intervalLate"
    by (simp add: areIntervalsOverlapping_def scheduleInterval_def addSeconds_def
        unordered_def intervalLate_def)
  have srt: "sort_key (\<lambda>r. startPeriod (storeU r)) (chargingSchedulePeriod unordered) = [1, 2, 0]"
    by (simp add: unordered_def storeU_def period_def)
  have b: "isBefore (startSchedule unordered) (start intervalLate)"
    by (simp add: isBefore_def unordered_def intervalLate_def)
  have v: "validInterval intervalLate \<and> 0 \<le> duration unordered"
    by (simp add: validInterval_def unordered_def intervalLate_def)
  from composition_writes_to_its_arguments
    [where s = unordered and I = intervalLate and h = storeU
       and p = "\<lparr>duration = 450, startSchedule = 150000, chargingRateUnit = AMPERE,
          chargingSchedulePeriod = [2, 0]\<rparr>"
       and s' = "unordered\<lparr>chargingSchedulePeriod := [1, 2, 0]\<rparr>"
       and h' = "storeU(2 := period 0 6)" and r = 2 and rs = "[0]"]
  show ?thesis
    using ov srt b v by (simp add: storeU_def period_def)
qed

subsection \<open>buildMeterValue\<close>

lemmas meter_defs = buildMeterValue_def socSampledValues_def powerPart_def currentPart_def
  energyPart_def checkMeasurandPowerDivider_def energyValueRounded_def energyUnitDivider_def
  persistEnergy_def getRandomFloatRounded_def roundTo_def getRandomFloatFluctuatedRounded_def
  getLimitFromSampledValueTemplateCustomValue_def parseInt_def isWhiteSpace_def digitValue_def
  isNotEmptyString_def collaborators_def template_def energyWh_def socPercent_def
  chargingStation1_def chargingConnector_def exampleStation_def idleConnector_def
  setConnectorStatus_def getConnectorStatus_def transactionRegisterOf_def buildSampledValue_def
  getMeasurandDefaultLocation_def numMap_def numAdd_def numGe0_def Let_def

lemma roundTo_mono: "a \<le> b \<Longrightarrow> roundTo a n \<le> roundTo b n"
proof -
  assume "a \<le> b"
  then have "a * 10 ^ n + 1 / 2 \<le> b * 10 ^ n + 1 / 2"
    by (simp add: mult_right_mono)
  then have "\<lfloor>a * 10 ^ n + 1 / 2\<rfloor> \<le> \<lfloor>b * 10 ^ n + 1 / 2\<rfloor>"
    by (rule floor_mono)
  then show ?thesis
    by (simp add: roundTo_def divide_right_mono)
qed

lemma roundTo_nonneg: "0 \<le> a \<Longrightarrow> 0 \<le> roundTo a n"
proof -
  assume "0 \<le> a"
  then have "0 \<le> a * 10 ^ n + 1 / 2" by simp
  then have "0 \<le> \<lfloor>a * 10 ^ n + 1 / 2\<rfloor>" by simp
  then show ?thesis by (simp add: roundTo_def)
qed

lemma getRandomInteger_range:
  assumes "0 \<le> mn" "mn \<le> 100" "0 \<le> u" "u \<le> 1"
  shows "mn \<le> getRandomInteger 100 mn u \<and> getRandomInteger 100 mn u \<le> 100"
proof -
  define k where "k = (100::int) - \<lceil>mn\<rceil>"
  have c: "\<lceil>mn\<rceil> \<le> 100" using assms(2) by (simp add: ceiling_le_iff)
  then have k0: "0 \<le> k" by (simp add: k_def)
  have "0 \<le> u * of_int k" using assms(3) k0 by simp
  then have lo: "0 \<le> \<lfloor>u * of_int k\<rfloor>" by simp
  have "u * of_int k \<le> of_int k"
    using assms(4) k0 mult_right_mono [of u 1 "of_int k"] by simp
  then have hi: "\<lfloor>u * of_int k\<rfloor> \<le> k" by (simp add: floor_le_iff)
  have r: "getRandomInteger 100 mn u = of_int (\<lceil>mn\<rceil> + \<lfloor>u * of_int k\<rfloor>)"
    by (simp add: getRandomInteger_def k_def)
  have "mn \<le> of_int \<lceil>mn\<rceil>" by (rule le_of_int_ceiling)
  also have "\<dots> \<le> of_int (\<lceil>mn\<rceil> + \<lfloor>u * of_int k\<rfloor>)" using lo by simp
  finally have 1: "mn \<le> getRandomInteger 100 mn u" by (simp add: r)
  have "\<lceil>mn\<rceil> + \<lfloor>u * of_int k\<rfloor> \<le> 100" using hi by (simp add: k_def)
  then have "(of_int (\<lceil>mn\<rceil> + \<lfloor>u * of_int k\<rfloor>) :: real) \<le> of_int 100"
    by (simp only: of_int_le_iff)
  then have 2: "getRandomInteger 100 mn u \<le> 100" by (simp add: r)
  show ?thesis using 1 2 by simp
qed

lemma fluctuated_range:
  assumes "0 \<le> x" "0 \<le> p" "0 \<le> u" "u \<le> 1"
  shows "roundTo (x * (1 - p / 100)) 2 \<le> roundTo (x * (1 + p / 100 * (2 * u - 1))) 2
       \<and> roundTo (x * (1 + p / 100 * (2 * u - 1))) 2 \<le> roundTo (x * (1 + p / 100)) 2"
proof -
  have a: "- 1 \<le> 2 * u - 1" "2 * u - 1 \<le> 1" using assms(3,4) by simp_all
  have q: "0 \<le> p / 100" using assms(2) by simp
  have "p / 100 * (- 1) \<le> p / 100 * (2 * u - 1)"
    using a(1) q by (rule mult_left_mono)
  then have "1 - p / 100 \<le> 1 + p / 100 * (2 * u - 1)" by simp
  then have l: "x * (1 - p / 100) \<le> x * (1 + p / 100 * (2 * u - 1))"
    using assms(1) by (rule mult_left_mono)
  have "p / 100 * (2 * u - 1) \<le> p / 100 * 1"
    using a(2) q by (rule mult_left_mono)
  then have "1 + p / 100 * (2 * u - 1) \<le> 1 + p / 100" by simp
  then have h: "x * (1 + p / 100 * (2 * u - 1)) \<le> x * (1 + p / 100)"
    using assms(1) by (rule mult_left_mono)
  show ?thesis using l h by (simp add: roundTo_mono)
qed

lemma buildMeterValue_Inr:
  assumes "buildMeterValue env st cid tid i = Inr (mv, st')"
  shows "\<exists>pw cu en. powerPart env st cid = Inr pw \<and> currentPart env st cid = Inr cu
     \<and> energyPart env st cid tid i = Inr (en, st')
     \<and> sampledValue mv = socSampledValues env cid
          @ (case getSampledValueTemplate env cid (Some VOLTAGE) None of
               None \<Rightarrow> [] | Some _ \<Rightarrow> voltageSampledValues env)
          @ pw @ cu @ en"
  using assms
  by (auto simp add: buildMeterValue_def Let_def split: sum.splits prod.splits)

lemma energyPart_Inr:
  assumes "energyPart env st cid tid i = Inr (en, st')"
    and "getSampledValueTemplate env cid None None = Some t"
    and "getConnectorStatus st cid = Some c"
  shows "st' = setConnectorStatus st cid (persistEnergy (energyValueRounded env st cid t i) c)
     \<and> en = [buildSampledValue t
               (Some (numMap (\<lambda>x. roundTo (x / energyUnitDivider t) 2)
                        (getEnergyActiveImportRegisterByTransactionId env st' tid)))
               None None]"
  using assms
  by (auto simp add: energyPart_def Let_def split: option.splits)

lemma persistEnergy_defined:
  assumes "energyActiveImportRegisterValue c = Some (Num a)" "0 \<le> a"
    and "transactionEnergyActiveImportRegisterValue c = Some (Num b)" "0 \<le> b"
  shows "persistEnergy (Num e) c = c\<lparr>energyActiveImportRegisterValue := Some (Num (a + e)),
           transactionEnergyActiveImportRegisterValue := Some (Num (b + e))\<rparr>"
  using assms by (simp add: persistEnergy_def numGe0_def numAdd_def)

lemma emitted_last:
  assumes "buildMeterValue env st cid tid i = Inr (mv, st')"
    and "getSampledValueTemplate env cid None None = Some t"
    and "getConnectorStatus st cid = Some c"
  shows "st' = setConnectorStatus st cid (persistEnergy (energyValueRounded env st cid t i) c)
     \<and> svValue (last (sampledValue mv)) =
         Some (numMap (\<lambda>x. roundTo (x / energyUnitDivider t) 2)
                 (getEnergyActiveImportRegisterByTransactionId env st' tid))"
proof -
  from buildMeterValue_Inr [OF assms(1)] obtain pw cu en where
    e: "energyPart env st cid tid i = Inr (en, st')"
    and sv: "sampledValue mv = socSampledValues env cid
          @ (case getSampledValueTemplate env cid (Some VOLTAGE) None of
               None \<Rightarrow> [] | Some _ \<Rightarrow> voltageSampledValues env)
          @ pw @ cu @ en"
    by blast
  from energyPart_Inr [OF e assms(2,3)] have
    st: "st' = setConnectorStatus st cid (persistEnergy (energyValueRounded env st cid t i) c)"
    and en: "en = [buildSampledValue t
               (Some (numMap (\<lambda>x. roundTo (x / energyUnitDivider t) 2)
                        (getEnergyActiveImportRegisterByTransactionId env st' tid)))
               None None]"
    by simp_all
  have "last (sampledValue mv) = buildSampledValue t
               (Some (numMap (\<lambda>x. roundTo (x / energyUnitDivider t) 2)
                        (getEnergyActiveImportRegisterByTransactionId env st' tid)))
               None None"
    unfolding sv en by simp
  then show ?thesis using st by (simp add: buildSampledValue_def)
qed

lemma connector_survives:
  assumes "buildMeterValue env st cid tid i = Inr (mv, st')"
    and "getConnectorStatus st' cid = Some c'"
  shows "\<exists>c. getConnectorStatus st cid = Some c"
proof (cases "getConnectorStatus st cid")
  case None
  from buildMeterValue_Inr [OF assms(1)] obtain en where
    "energyPart env st cid tid i = Inr (en, st')" by blast
  then have "st' = st"
    using None by (auto simp add: energyPart_def Let_def split: option.splits)
  then show ?thesis using assms(2) None by simp
next
  case (Some c)
  then show ?thesis by simp
qed

text \<open>
  Without a literal value, with a minimum that is not negative and not above the greatest
  energy of the interval, and a draw from 0 to 1, the increment is not negative.
\<close>

lemma energyValueRounded_nonneg:
  assumes "\<not> isNotEmptyString (value' t)"
    and "0 \<le> (case minimumValue t of Some m \<Rightarrow> m | None \<Rightarrow> 0)"
    and "roundTo (case minimumValue t of Some m \<Rightarrow> m | None \<Rightarrow> 0) 2
           \<le> roundTo (getConnectorMaximumAvailablePower env cid * i / (3600 * 1000)) 2"
    and "0 \<le> random env 1" "random env 1 \<le> 1"
  shows "\<exists>e. energyValueRounded env st cid t i = Num e \<and> 0 \<le> e"
proof -
  let ?mn = "roundTo (case minimumValue t of Some m \<Rightarrow> m | None \<Rightarrow> 0) 2"
  let ?mx = "roundTo (getConnectorMaximumAvailablePower env cid * i / (3600 * 1000)) 2"
  have "0 \<le> ?mn" using assms(2) by (rule roundTo_nonneg)
  moreover have "0 \<le> random env 1 * (?mx - ?mn)" using assms(3,4) by simp
  ultimately have "0 \<le> ?mn + random env 1 * (?mx - ?mn)" by simp
  then have "0 \<le> roundTo (?mn + random env 1 * (?mx - ?mn)) 2" by (rule roundTo_nonneg)
  then show ?thesis
    using assms(1) by (simp add: energyValueRounded_def getRandomFloatRounded_def Let_def)
qed

text \<open>
  C5. \<open>buildMeterValue\<close> throws an InternalError on command MeterValues when a power,
  current or energy template resolves and the power divider is undefined, or is zero or
  below; and when a power or current template resolves, the power divider is positive
  and the current type is not known. With a positive power divider and a known current
  type it throws nothing and returns a meter value.
\<close>

theorem buildMeterValue_errors:
  "((getSampledValueTemplate env cid (Some POWER_ACTIVE_IMPORT) None \<noteq> None
       \<or> getSampledValueTemplate env cid (Some CURRENT_IMPORT) None \<noteq> None
       \<or> getSampledValueTemplate env cid None None \<noteq> None)
      \<and> powerDivider st = None
     \<longrightarrow> (\<exists>m. buildMeterValue env st cid tid interval =
              Inl (OCPPError INTERNAL_ERROR (PowerDividerUndefined m) METER_VALUES)))
   \<and> ((getSampledValueTemplate env cid (Some POWER_ACTIVE_IMPORT) None \<noteq> None
       \<or> getSampledValueTemplate env cid (Some CURRENT_IMPORT) None \<noteq> None
       \<or> getSampledValueTemplate env cid None None \<noteq> None)
      \<and> powerDivider st = Some d \<and> d \<le> 0
     \<longrightarrow> (\<exists>m. buildMeterValue env st cid tid interval =
              Inl (OCPPError INTERNAL_ERROR (PowerDividerZeroOrBelow m d) METER_VALUES)))
   \<and> ((getSampledValueTemplate env cid (Some POWER_ACTIVE_IMPORT) None \<noteq> None
       \<or> getSampledValueTemplate env cid (Some CURRENT_IMPORT) None \<noteq> None)
      \<and> powerDivider st = Some d \<and> 0 < d \<and> currentOutType st = None
     \<longrightarrow> (\<exists>m. buildMeterValue env st cid tid interval =
              Inl (OCPPError INTERNAL_ERROR (UnknownCurrentOutType m) METER_VALUES)))
   \<and> (powerDivider st = Some d \<and> 0 < d \<and> currentOutType st \<noteq> None
     \<longrightarrow> (\<exists>mv st'. buildMeterValue env st cid tid interval = Inr (mv, st')))"
proof (intro conjI impI)
  assume "(getSampledValueTemplate env cid (Some POWER_ACTIVE_IMPORT) None \<noteq> None
       \<or> getSampledValueTemplate env cid (Some CURRENT_IMPORT) None \<noteq> None
       \<or> getSampledValueTemplate env cid None None \<noteq> None)
      \<and> powerDivider st = None"
  then show "\<exists>m. buildMeterValue env st cid tid interval =
              Inl (OCPPError INTERNAL_ERROR (PowerDividerUndefined m) METER_VALUES)"
    by (auto simp add: buildMeterValue_def powerPart_def currentPart_def energyPart_def
        checkMeasurandPowerDivider_def Let_def split: option.splits)
next
  assume "(getSampledValueTemplate env cid (Some POWER_ACTIVE_IMPORT) None \<noteq> None
       \<or> getSampledValueTemplate env cid (Some CURRENT_IMPORT) None \<noteq> None
       \<or> getSampledValueTemplate env cid None None \<noteq> None)
      \<and> powerDivider st = Some d \<and> d \<le> 0"
  then show "\<exists>m. buildMeterValue env st cid tid interval =
              Inl (OCPPError INTERNAL_ERROR (PowerDividerZeroOrBelow m d) METER_VALUES)"
    by (auto simp add: buildMeterValue_def powerPart_def currentPart_def energyPart_def
        checkMeasurandPowerDivider_def Let_def split: option.splits)
next
  assume "(getSampledValueTemplate env cid (Some POWER_ACTIVE_IMPORT) None \<noteq> None
       \<or> getSampledValueTemplate env cid (Some CURRENT_IMPORT) None \<noteq> None)
      \<and> powerDivider st = Some d \<and> 0 < d \<and> currentOutType st = None"
  then show "\<exists>m. buildMeterValue env st cid tid interval =
              Inl (OCPPError INTERNAL_ERROR (UnknownCurrentOutType m) METER_VALUES)"
    by (auto simp add: buildMeterValue_def powerPart_def currentPart_def energyPart_def
        checkMeasurandPowerDivider_def Let_def split: option.splits)
next
  assume "powerDivider st = Some d \<and> 0 < d \<and> currentOutType st \<noteq> None"
  then show "\<exists>mv st'. buildMeterValue env st cid tid interval = Inr (mv, st')"
    by (auto simp add: buildMeterValue_def powerPart_def currentPart_def energyPart_def
        checkMeasurandPowerDivider_def Let_def split: option.splits CurrentType.splits)
qed

theorem buildMeterValue_errors_witness:
  "(\<exists>m. buildMeterValue (collaborators None (Some (energyWh None None)) (\<lambda>_. 1 / 2))
           (exampleStation\<lparr>powerDivider := None\<rparr>) 1 42 60000 =
         Inl (OCPPError INTERNAL_ERROR (PowerDividerUndefined m) METER_VALUES))
   \<and> (\<exists>m. buildMeterValue (collaborators None (Some (energyWh None None)) (\<lambda>_. 1 / 2))
           (exampleStation\<lparr>powerDivider := Some 0\<rparr>) 1 42 60000 =
         Inl (OCPPError INTERNAL_ERROR (PowerDividerZeroOrBelow m 0) METER_VALUES))
   \<and> (\<exists>m. buildMeterValue powerCollaborators
           (exampleStation\<lparr>currentOutType := None\<rparr>) 1 42 60000 =
         Inl (OCPPError INTERNAL_ERROR (UnknownCurrentOutType m) METER_VALUES))
   \<and> (\<exists>mv st'. buildMeterValue powerCollaborators exampleStation 1 42 60000 = Inr (mv, st'))"
  using buildMeterValue_errors
      [where env = "collaborators None (Some (energyWh None None)) (\<lambda>_. 1 / 2)" and cid = 1
         and st = "exampleStation\<lparr>powerDivider := None\<rparr>" and tid = 42 and interval = 60000
         and d = 1]
    buildMeterValue_errors
      [where env = "collaborators None (Some (energyWh None None)) (\<lambda>_. 1 / 2)" and cid = 1
         and st = "exampleStation\<lparr>powerDivider := Some 0\<rparr>" and tid = 42 and interval = 60000
         and d = 0]
    buildMeterValue_errors
      [where env = powerCollaborators and cid = 1
         and st = "exampleStation\<lparr>currentOutType := None\<rparr>" and tid = 42 and interval = 60000
         and d = 1]
    buildMeterValue_errors
      [where env = powerCollaborators and cid = 1 and st = exampleStation and tid = 42
         and interval = 60000 and d = 1]
  by (simp add: collaborators_def powerCollaborators_def exampleStation_def)

text \<open>
  C6, as the code has it. Two successive calls on one connector, both returning, with the
  same energy template, and a register query that answers with the connector's
  transaction register. If after the first call both registers are defined and not
  negative, the second call adds its increment \<open>e\<close> to both; the first call emitted the
  transaction register it left, the second the sum, each divided by the unit divider and
  rounded. When \<open>e\<close> is not negative, neither register nor the emitted value decreases.
  (Lemma \<open>energyValueRounded_nonneg\<close> gives templates for which \<open>e\<close> is not negative.)
\<close>

theorem energy_registers_across_calls:
  assumes t1: "getSampledValueTemplate env1 cid None None = Some t"
      and t2: "getSampledValueTemplate env2 cid None None = Some t"
      and q1: "getEnergyActiveImportRegisterByTransactionId env1 = transactionRegisterOf cid"
      and q2: "getEnergyActiveImportRegisterByTransactionId env2 = transactionRegisterOf cid"
      and c1: "buildMeterValue env1 st0 cid tid i1 = Inr (mv1, st1)"
      and c2: "buildMeterValue env2 st1 cid tid i2 = Inr (mv2, st2)"
      and conn: "getConnectorStatus st1 cid = Some c"
      and ra: "energyActiveImportRegisterValue c = Some (Num a)" "0 \<le> a"
      and rb: "transactionEnergyActiveImportRegisterValue c = Some (Num b)" "0 \<le> b"
      and inc: "energyValueRounded env2 st1 cid t i2 = Num e"
  shows "\<exists>c'. getConnectorStatus st2 cid = Some c'
       \<and> energyActiveImportRegisterValue c' = Some (Num (a + e))
       \<and> transactionEnergyActiveImportRegisterValue c' = Some (Num (b + e))
       \<and> svValue (last (sampledValue mv1)) = Some (Num (roundTo (b / energyUnitDivider t) 2))
       \<and> svValue (last (sampledValue mv2)) = Some (Num (roundTo ((b + e) / energyUnitDivider t) 2))
       \<and> (0 \<le> e \<longrightarrow> a \<le> a + e \<and> b \<le> b + e
            \<and> roundTo (b / energyUnitDivider t) 2 \<le> roundTo ((b + e) / energyUnitDivider t) 2)"
proof -
  let ?c' = "c\<lparr>energyActiveImportRegisterValue := Some (Num (a + e)),
           transactionEnergyActiveImportRegisterValue := Some (Num (b + e))\<rparr>"
  from connector_survives [OF c1 conn] obtain c0 where c0: "getConnectorStatus st0 cid = Some c0"
    by blast
  from emitted_last [OF c1 t1 c0] have
    v1: "svValue (last (sampledValue mv1)) =
         Some (numMap (\<lambda>x. roundTo (x / energyUnitDivider t) 2) (transactionRegisterOf cid st1 tid))"
    by (simp add: q1)
  have r1: "transactionRegisterOf cid st1 tid = Num b"
    using conn rb by (simp add: transactionRegisterOf_def)
  from emitted_last [OF c2 t2 conn] have
    st2: "st2 = setConnectorStatus st1 cid (persistEnergy (Num e) c)"
    and v2: "svValue (last (sampledValue mv2)) =
         Some (numMap (\<lambda>x. roundTo (x / energyUnitDivider t) 2) (transactionRegisterOf cid st2 tid))"
    by (simp_all add: q2 inc)
  have p: "persistEnergy (Num e) c = ?c'"
    using persistEnergy_defined [OF ra rb] .
  have g2: "getConnectorStatus st2 cid = Some ?c'"
    by (simp add: st2 p getConnectorStatus_def setConnectorStatus_def)
  have r2: "transactionRegisterOf cid st2 tid = Num (b + e)"
    using g2 by (simp add: transactionRegisterOf_def)
  have u: "0 < energyUnitDivider t" by (simp add: energyUnitDivider_def)
  have m: "0 \<le> e \<Longrightarrow> roundTo (b / energyUnitDivider t) 2 \<le> roundTo ((b + e) / energyUnitDivider t) 2"
    using u by (intro roundTo_mono divide_right_mono) simp_all
  show ?thesis
    using g2 v1 v2 m by (intro exI [of _ ?c']) (simp add: r1 r2 numMap_def)
qed

lemma energy_call_from_zero:
  "buildMeterValue (collaborators None (Some (energyWh None None)) (\<lambda>_. 1 / 2))
      (chargingStation1 0 0) 1 42 60000
   = Inr (\<lparr>timestamp = 0, sampledValue =
            [\<lparr>svUnit = Some WATT_HOUR, svContext = None,
              svMeasurand = Some ENERGY_ACTIVE_IMPORT_REGISTER, svLocation = None,
              svValue = Some (Num (3067 / 50)), svPhase = None\<rparr>]\<rparr>,
          chargingStation1 (3067 / 50) (3067 / 50))"
  by (simp add: meter_defs)

lemma energy_call_again:
  "buildMeterValue (collaborators None (Some (energyWh None None)) (\<lambda>_. 1 / 2))
      (chargingStation1 (3067 / 50) (3067 / 50)) 1 42 60000
   = Inr (\<lparr>timestamp = 0, sampledValue =
            [\<lparr>svUnit = Some WATT_HOUR, svContext = None,
              svMeasurand = Some ENERGY_ACTIVE_IMPORT_REGISTER, svLocation = None,
              svValue = Some (Num (3067 / 25)), svPhase = None\<rparr>]\<rparr>,
          chargingStation1 (3067 / 25) (3067 / 25))"
  by (simp add: meter_defs)

text \<open>
  The theorem at the spec's scenario S1 (7360 W, 60 s, Wh), the draw 1/2 twice: each
  call adds 61.34 Wh.
\<close>

theorem energy_registers_across_calls_witness:
  "\<exists>c'. getConnectorStatus (chargingStation1 (3067 / 25) (3067 / 25)) 1 = Some c'
       \<and> energyActiveImportRegisterValue c' = Some (Num (3067 / 50 + 3067 / 50))
       \<and> transactionEnergyActiveImportRegisterValue c' = Some (Num (3067 / 50 + 3067 / 50))
       \<and> roundTo (3067 / 50) 2 \<le> roundTo ((3067 / 50 + 3067 / 50)) 2"
proof -
  let ?env = "collaborators None (Some (energyWh None None)) (\<lambda>_. 1 / 2)"
  have t: "getSampledValueTemplate ?env 1 None None = Some (energyWh None None)"
    by (simp add: collaborators_def)
  have q: "getEnergyActiveImportRegisterByTransactionId ?env = transactionRegisterOf 1"
    by (simp add: collaborators_def)
  have conn: "getConnectorStatus (chargingStation1 (3067 / 50) (3067 / 50)) 1
      = Some (chargingConnector (3067 / 50) (3067 / 50))"
    by (simp add: chargingStation1_def getConnectorStatus_def setConnectorStatus_def)
  have ra: "energyActiveImportRegisterValue (chargingConnector (3067 / 50) (3067 / 50))
      = Some (Num (3067 / 50))"
    by (simp add: chargingConnector_def)
  have rb: "transactionEnergyActiveImportRegisterValue (chargingConnector (3067 / 50) (3067 / 50))
      = Some (Num (3067 / 50))"
    by (simp add: chargingConnector_def)
  have nn: "(0::real) \<le> 3067 / 50" by simp
  have inc: "energyValueRounded ?env (chargingStation1 (3067 / 50) (3067 / 50)) 1
      (energyWh None None) 60000 = Num (3067 / 50)"
    by (simp add: meter_defs)
  have u: "energyUnitDivider (energyWh None None) = 1"
    by (simp add: energyUnitDivider_def energyWh_def template_def)
  from energy_registers_across_calls
    [OF t t q q energy_call_from_zero energy_call_again conn ra nn rb nn inc]
  show ?thesis by (auto simp add: u)
qed

text \<open>
  C6 as the spec states it fails for an energy template with the literal value -5 (no
  fluctuation, limitation disabled): with both registers defined and not negative (100
  and 10), a call leaves them at 95 and 5 and emits 5, the next leaves them at 90 and 0
  and emits 0.
\<close>

theorem energy_registers_decrease:
  "buildMeterValue (collaborators None (Some (energyWh (Some ''-5'') (Some 0))) (\<lambda>_. 1 / 2))
      (chargingStation1 100 10) 1 42 60000
   = Inr (\<lparr>timestamp = 0, sampledValue =
            [\<lparr>svUnit = Some WATT_HOUR, svContext = None,
              svMeasurand = Some ENERGY_ACTIVE_IMPORT_REGISTER, svLocation = None,
              svValue = Some (Num 5), svPhase = None\<rparr>]\<rparr>,
          chargingStation1 95 5)
   \<and> buildMeterValue (collaborators None (Some (energyWh (Some ''-5'') (Some 0))) (\<lambda>_. 1 / 2))
      (chargingStation1 95 5) 1 42 60000
   = Inr (\<lparr>timestamp = 0, sampledValue =
            [\<lparr>svUnit = Some WATT_HOUR, svContext = None,
              svMeasurand = Some ENERGY_ACTIVE_IMPORT_REGISTER, svLocation = None,
              svValue = Some (Num 0), svPhase = None\<rparr>]\<rparr>,
          chargingStation1 90 0)"
  by (simp add: meter_defs)

text \<open>
  C7, as the code has it. Without a literal value in the template, with a minimum from 0
  to 100 and a draw from 0 to 1, the state of charge sample lies between the minimum and
  100. With a literal value that \<^verbatim>\<open>parseInt\<close> reads as \<open>x \<ge> 0\<close>, the sample lies between
  \<open>x\<close> less and \<open>x\<close> plus the fluctuation percent (rounded to 2 decimals); nothing
  brings it back into the range from 0 to 100. These samples are the first ones of the
  meter value that \<open>buildMeterValue\<close> returns.
\<close>

theorem socSampledValues_range:
  "(getSampledValueTemplate env cid (Some STATE_OF_CHARGE) None = Some t
      \<and> \<not> isNotEmptyString (value' t)
      \<and> 0 \<le> socMinimum t \<and> socMinimum t \<le> 100
      \<and> 0 \<le> random env 0 \<and> random env 0 \<le> 1
     \<longrightarrow> (\<exists>v. socSampledValues env cid = [buildSampledValue t (Some (Num v)) None None]
            \<and> socMinimum t \<le> v \<and> v \<le> 100))
   \<and> (getSampledValueTemplate env cid (Some STATE_OF_CHARGE) None = Some t
      \<and> value' t = Some lit \<and> lit \<noteq> [] \<and> parseInt lit = Num x \<and> 0 \<le> x
      \<and> 0 \<le> fluctuationOf t
      \<and> 0 \<le> random env 0 \<and> random env 0 \<le> 1
     \<longrightarrow> (\<exists>v. socSampledValues env cid = [buildSampledValue t (Some (Num v)) None None]
            \<and> roundTo (x * (1 - fluctuationOf t / 100)) 2 \<le> v
            \<and> v \<le> roundTo (x * (1 + fluctuationOf t / 100)) 2))
   \<and> (buildMeterValue env st cid tid interval = Inr (mv, st')
     \<longrightarrow> take (length (socSampledValues env cid)) (sampledValue mv) = socSampledValues env cid)"
proof (intro conjI impI)
  assume a: "getSampledValueTemplate env cid (Some STATE_OF_CHARGE) None = Some t
      \<and> \<not> isNotEmptyString (value' t)
      \<and> 0 \<le> socMinimum t \<and> socMinimum t \<le> 100
      \<and> 0 \<le> random env 0 \<and> random env 0 \<le> 1"
  then have "socSampledValues env cid =
      [buildSampledValue t (Some (Num (getRandomInteger 100 (socMinimum t) (random env 0)))) None None]"
    by (simp add: socSampledValues_def socMinimum_def Let_def)
  then show "\<exists>v. socSampledValues env cid = [buildSampledValue t (Some (Num v)) None None]
            \<and> socMinimum t \<le> v \<and> v \<le> 100"
    using a getRandomInteger_range [of "socMinimum t" "random env 0"] by blast
next
  assume a: "getSampledValueTemplate env cid (Some STATE_OF_CHARGE) None = Some t
      \<and> value' t = Some lit \<and> lit \<noteq> [] \<and> parseInt lit = Num x \<and> 0 \<le> x
      \<and> 0 \<le> fluctuationOf t
      \<and> 0 \<le> random env 0 \<and> random env 0 \<le> 1"
  then have "socSampledValues env cid =
      [buildSampledValue t
         (Some (Num (roundTo (x * (1 + fluctuationOf t / 100 * (2 * random env 0 - 1))) 2)))
         None None]"
    by (simp add: socSampledValues_def fluctuationOf_def Let_def isNotEmptyString_def
        getRandomFloatFluctuatedRounded_def numMap_def)
  then show "\<exists>v. socSampledValues env cid = [buildSampledValue t (Some (Num v)) None None]
            \<and> roundTo (x * (1 - fluctuationOf t / 100)) 2 \<le> v
            \<and> v \<le> roundTo (x * (1 + fluctuationOf t / 100)) 2"
    using a fluctuated_range [of x "fluctuationOf t" "random env 0"] by blast
next
  assume "buildMeterValue env st cid tid interval = Inr (mv, st')"
  then show "take (length (socSampledValues env cid)) (sampledValue mv) = socSampledValues env cid"
    using buildMeterValue_Inr by fastforce
qed

theorem socSampledValues_range_witness:
  "(\<exists>v. socSampledValues (collaborators (Some (socPercent None None)) None (\<lambda>_. 1 / 2)) 1
           = [buildSampledValue (socPercent None None) (Some (Num v)) None None]
        \<and> 0 \<le> v \<and> v \<le> 100)
   \<and> (\<exists>v. socSampledValues (collaborators (Some (socPercent (Some ''80'') None)) None (\<lambda>_. 1 / 2)) 1
           = [buildSampledValue (socPercent (Some ''80'') None) (Some (Num v)) None None]
        \<and> 76 \<le> v \<and> v \<le> 84)"
proof
  let ?env = "collaborators (Some (socPercent None None)) None (\<lambda>_. 1 / 2)"
  have "getSampledValueTemplate ?env 1 (Some STATE_OF_CHARGE) None = Some (socPercent None None)
      \<and> \<not> isNotEmptyString (value' (socPercent None None))
      \<and> 0 \<le> socMinimum (socPercent None None) \<and> socMinimum (socPercent None None) \<le> 100
      \<and> 0 \<le> random ?env 0 \<and> random ?env 0 \<le> 1"
    by (simp add: collaborators_def socPercent_def template_def isNotEmptyString_def
        socMinimum_def)
  then have "\<exists>v. socSampledValues ?env 1
           = [buildSampledValue (socPercent None None) (Some (Num v)) None None]
        \<and> socMinimum (socPercent None None) \<le> v \<and> v \<le> 100"
    using socSampledValues_range [of ?env 1 "socPercent None None"] by blast
  then show "\<exists>v. socSampledValues ?env 1
           = [buildSampledValue (socPercent None None) (Some (Num v)) None None]
        \<and> 0 \<le> v \<and> v \<le> 100"
    by (simp add: socMinimum_def socPercent_def template_def)
next
  let ?env = "collaborators (Some (socPercent (Some ''80'') None)) None (\<lambda>_. 1 / 2)"
  let ?t = "socPercent (Some ''80'') None"
  have "getSampledValueTemplate ?env 1 (Some STATE_OF_CHARGE) None = Some ?t
      \<and> value' ?t = Some ''80'' \<and> ''80'' \<noteq> [] \<and> parseInt ''80'' = Num 80 \<and> (0::real) \<le> 80
      \<and> 0 \<le> fluctuationOf ?t
      \<and> 0 \<le> random ?env 0 \<and> random ?env 0 \<le> 1"
    by (simp add: collaborators_def socPercent_def template_def fluctuationOf_def
        DEFAULT_FLUCTUATION_PERCENT_def parseInt_def isWhiteSpace_def digitValue_def)
  then have "\<exists>v. socSampledValues ?env 1 = [buildSampledValue ?t (Some (Num v)) None None]
            \<and> roundTo (80 * (1 - fluctuationOf ?t / 100)) 2 \<le> v
            \<and> v \<le> roundTo (80 * (1 + fluctuationOf ?t / 100)) 2"
    using socSampledValues_range [of ?env 1 ?t "''80''" 80] by blast
  moreover have "roundTo (80 * (1 - fluctuationOf ?t / 100)) 2 = 76"
    by (simp add: roundTo_def fluctuationOf_def socPercent_def template_def
        DEFAULT_FLUCTUATION_PERCENT_def)
  moreover have "roundTo (80 * (1 + fluctuationOf ?t / 100)) 2 = 84"
    by (simp add: roundTo_def fluctuationOf_def socPercent_def template_def
        DEFAULT_FLUCTUATION_PERCENT_def)
  ultimately show "\<exists>v. socSampledValues ?env 1 = [buildSampledValue ?t (Some (Num v)) None None]
        \<and> 76 \<le> v \<and> v \<le> 84"
    by simp
qed

text \<open>
  C7 as the spec states it fails: a template with the literal value 150 and no
  fluctuation gives the sample 150, which \<open>buildMeterValue\<close> returns; the literal value
  100 with the default fluctuation and the greatest draw gives 105.
\<close>

theorem socSampledValues_above_100:
  "socSampledValues (collaborators (Some (socPercent (Some ''150'') (Some 0))) None (\<lambda>_. 1 / 2)) 1
     = [\<lparr>svUnit = Some PERCENT, svContext = None, svMeasurand = Some STATE_OF_CHARGE,
         svLocation = Some EV, svValue = Some (Num 150), svPhase = None\<rparr>]
   \<and> buildMeterValue (collaborators (Some (socPercent (Some ''150'') (Some 0))) None (\<lambda>_. 1 / 2))
       exampleStation 1 42 60000
     = Inr (\<lparr>timestamp = 0, sampledValue =
              [\<lparr>svUnit = Some PERCENT, svContext = None, svMeasurand = Some STATE_OF_CHARGE,
                svLocation = Some EV, svValue = Some (Num 150), svPhase = None\<rparr>]\<rparr>,
            exampleStation)
   \<and> socSampledValues (collaborators (Some (socPercent (Some ''100'') None)) None (\<lambda>_. 1)) 1
     = [\<lparr>svUnit = Some PERCENT, svContext = None, svMeasurand = Some STATE_OF_CHARGE,
         svLocation = Some EV, svValue = Some (Num 105), svPhase = None\<rparr>]
   \<and> (100::real) < 150 \<and> (100::real) < 105"
  by (simp add: meter_defs DEFAULT_FLUCTUATION_PERCENT_def)

subsection \<open>changeAvailability\<close>

lemma changeAvailabilityLoop_general:
  "set cids \<subseteq> dom (connectors st) \<Longrightarrow>
   \<exists>st'. changeAvailabilityLoop st cids cps av rs =
            Inr (st', rs @ map (\<lambda>cid. if hasActiveTransaction st cid then SCHEDULED else ACCEPTED) cids)
        \<and> connectors st' = (\<lambda>cid. if cid \<in> set cids
              then map_option (availabilityChanged cps av) (connectors st cid)
              else connectors st cid)
        \<and> statusNotifications st' = statusNotifications st
             @ map (\<lambda>cid. (cid, cps)) (filter (\<lambda>cid. \<not> hasActiveTransaction st cid) cids)"
proof (induction cids arbitrary: st rs)
  case Nil
  then show ?case by simp
next
  case (Cons cid cids)
  then obtain c where c: "connectors st cid = Some c" by auto
  define st2 where "st2 = (let st1 = setConnectorStatus st cid (c\<lparr>availability := av\<rparr>)
     in if transactionStarted c = Some True then st1 else sendAndSetConnectorStatus st1 cid cps)"
  have conn2: "connectors st2 = (connectors st)(cid \<mapsto> availabilityChanged cps av c)"
    by (auto simp add: st2_def Let_def setConnectorStatus_def sendAndSetConnectorStatus_def
        getConnectorStatus_def availabilityChanged_def)
  have notif2: "statusNotifications st2 = statusNotifications st
      @ (if transactionStarted c = Some True then [] else [(cid, cps)])"
    by (auto simp add: st2_def Let_def setConnectorStatus_def sendAndSetConnectorStatus_def
        getConnectorStatus_def)
  have active2: "hasActiveTransaction st2 x = hasActiveTransaction st x" for x
    using c by (auto simp add: hasActiveTransaction_def getConnectorStatus_def conn2
        availabilityChanged_def)
  have hd: "hasActiveTransaction st cid = (transactionStarted c = Some True)"
    using c by (simp add: hasActiveTransaction_def getConnectorStatus_def)
  have step: "changeAvailabilityLoop st (cid # cids) cps av rs =
      changeAvailabilityLoop st2 cids cps av
        (rs @ [if hasActiveTransaction st cid then SCHEDULED else ACCEPTED])"
    using c by (simp add: getConnectorStatus_def st2_def Let_def hasActiveTransaction_def)
  have sub: "set cids \<subseteq> dom (connectors st2)"
    using Cons.prems by (auto simp add: conn2)
  from Cons.IH [OF sub, of "rs @ [if hasActiveTransaction st cid then SCHEDULED else ACCEPTED]"]
  obtain st' where
    r: "changeAvailabilityLoop st2 cids cps av
          (rs @ [if hasActiveTransaction st cid then SCHEDULED else ACCEPTED]) =
        Inr (st', (rs @ [if hasActiveTransaction st cid then SCHEDULED else ACCEPTED])
               @ map (\<lambda>cid. if hasActiveTransaction st2 cid then SCHEDULED else ACCEPTED) cids)"
    and cn: "connectors st' = (\<lambda>x. if x \<in> set cids
              then map_option (availabilityChanged cps av) (connectors st2 x)
              else connectors st2 x)"
    and nt: "statusNotifications st' = statusNotifications st2
             @ map (\<lambda>cid. (cid, cps)) (filter (\<lambda>cid. \<not> hasActiveTransaction st2 cid) cids)"
    by blast
  have idem: "availabilityChanged cps av (availabilityChanged cps av c) = availabilityChanged cps av c"
    by (simp add: availabilityChanged_def)
  have "connectors st' = (\<lambda>x. if x \<in> set (cid # cids)
              then map_option (availabilityChanged cps av) (connectors st x)
              else connectors st x)"
    using c idem by (auto simp add: cn conn2 fun_eq_iff)
  moreover have "statusNotifications st' = statusNotifications st
             @ map (\<lambda>cid. (cid, cps)) (filter (\<lambda>cid. \<not> hasActiveTransaction st cid) (cid # cids))"
    by (simp add: nt notif2 active2 hd)
  ultimately show ?case
    using r step by (simp add: active2)
qed

text \<open>
  C9. For connector ids that the station knows, \<open>changeAvailability\<close> records Scheduled for
  each connector with an active transaction and Accepted for each one without, in the
  order of the list; it answers Scheduled iff some listed connector has an active
  transaction and Accepted otherwise. Afterwards every listed connector has the requested
  availability, the listed connectors without a transaction have the requested status
  (one status notification each), those with a transaction keep their status, and the
  connectors not listed are as before.
\<close>

theorem changeAvailability_scheduled_or_accepted:
  assumes "set cids \<subseteq> dom (connectors st)"
  shows "\<exists>st'. changeAvailabilityLoop st cids cps av [] =
            Inr (st', map (\<lambda>cid. if hasActiveTransaction st cid then SCHEDULED else ACCEPTED) cids)
        \<and> changeAvailability st cids cps av =
            Inr (st', if \<exists>cid\<in>set cids. hasActiveTransaction st cid then SCHEDULED else ACCEPTED)
        \<and> (\<forall>cid. connectors st' cid = (if cid \<in> set cids
              then map_option (availabilityChanged cps av) (connectors st cid)
              else connectors st cid))
        \<and> statusNotifications st' = statusNotifications st
             @ map (\<lambda>cid. (cid, cps)) (filter (\<lambda>cid. \<not> hasActiveTransaction st cid) cids)"
proof -
  from changeAvailabilityLoop_general [OF assms, of cps av "[]"]
  obtain st' where
    r: "changeAvailabilityLoop st cids cps av [] =
        Inr (st', map (\<lambda>cid. if hasActiveTransaction st cid then SCHEDULED else ACCEPTED) cids)"
    and cn: "connectors st' = (\<lambda>cid. if cid \<in> set cids
              then map_option (availabilityChanged cps av) (connectors st cid)
              else connectors st cid)"
    and nt: "statusNotifications st' = statusNotifications st
             @ map (\<lambda>cid. (cid, cps)) (filter (\<lambda>cid. \<not> hasActiveTransaction st cid) cids)"
    by auto
  have "(SCHEDULED \<in> set (map (\<lambda>cid. if hasActiveTransaction st cid then SCHEDULED else ACCEPTED) cids))
      = (\<exists>cid\<in>set cids. hasActiveTransaction st cid)"
    by (auto simp add: image_iff split: if_splits)
  then have "changeAvailability st cids cps av =
      Inr (st', if \<exists>cid\<in>set cids. hasActiveTransaction st cid then SCHEDULED else ACCEPTED)"
    by (simp add: changeAvailability_def r)
  then show ?thesis using r cn nt by auto
qed

theorem changeAvailability_scheduled_or_accepted_witness:
  "\<exists>st'. changeAvailability busyStation [1, 2] Unavailable Inoperative = Inr (st', SCHEDULED)
      \<and> connectors st' 1 = Some (idleConnector\<lparr>availability := Inoperative, status := Some Charging,
            transactionStarted := Some True, transactionId := Some 42\<rparr>)
      \<and> connectors st' 2 = Some (idleConnector\<lparr>availability := Inoperative, status := Some Unavailable\<rparr>)
      \<and> connectors st' 0 = Some idleConnector
      \<and> statusNotifications st' = [(2, Unavailable)]"
proof -
  have "set [1, 2] \<subseteq> dom (connectors busyStation)"
    by (simp add: busyStation_def)
  from changeAvailability_scheduled_or_accepted [OF this, of Unavailable Inoperative]
  show ?thesis
    by (auto simp add: busyStation_def exampleStation_def idleConnector_def
        hasActiveTransaction_def getConnectorStatus_def availabilityChanged_def)
qed

subsection \<open>hasReservation\<close>

text \<open>
  C8. \<open>hasReservation\<close> is true iff the connector is Reserved and its reservation exists,
  is not expired and carries the idTag, or the same holds of connector 0 and the
  station's reservation. It is false whenever every reservation with the idTag (on the
  connector or on connector 0) has \<open>expiryDate \<le> now\<close>.
\<close>

theorem hasReservation_iff:
  "(hasReservation now st cid tag \<longleftrightarrow>
      ((\<exists>c. getConnectorStatus st cid = Some c \<and> status c = Some Reserved)
         \<and> (\<exists>r. getReservationBy st cid = Some r \<and> \<not> expiryDate r \<le> now \<and> idTag r = tag))
      \<or> ((\<exists>c. getConnectorStatus st 0 = Some c \<and> status c = Some Reserved)
         \<and> (\<exists>r. getReservationBy st 0 = Some r \<and> \<not> expiryDate r \<le> now \<and> idTag r = tag)))
   \<and> ((\<forall>r. (getReservationBy st cid = Some r \<or> getReservationBy st 0 = Some r) \<and> idTag r = tag
            \<longrightarrow> expiryDate r \<le> now)
        \<longrightarrow> \<not> hasReservation now st cid tag)"
  by (auto simp add: hasReservation_def hasReservationExpired_def Let_def
      split: option.splits)

theorem hasReservation_iff_witness:
  "hasReservation 1000 reservedStation 1 ''A''
   \<and> \<not> hasReservation 2000 reservedStation 1 ''A''
   \<and> \<not> hasReservation 1000 reservedStation 1 ''B''
   \<and> \<not> hasReservation 1000 reservedStation 2 ''A''"
  using hasReservation_iff [of 1000 reservedStation 1 "''A''"]
    hasReservation_iff [of 2000 reservedStation 1 "''A''"]
    hasReservation_iff [of 1000 reservedStation 1 "''B''"]
    hasReservation_iff [of 1000 reservedStation 2 "''A''"]
  by (simp add: reservedStation_def exampleStation_def idleConnector_def getConnectorStatus_def)

subsection \<open>clearChargingProfiles\<close>

text \<open>
  C3. Two profiles of stack level 1 stand next to each other and the payload asks for
  stack level 1 with no purpose and no id. Both satisfy the clearing test; the call
  removes the first, never visits the second (it moved down to the index just visited),
  and returns true with the second still in the list.
\<close>

theorem clearChargingProfiles_skips_adjacent_match:
  "clearCurrentCP \<lparr>id' = None, chargingProfilePurpose' = None, stackLevel' = Some 1\<rparr>
      (profile 1 1 TX_PROFILE)
   \<and> clearCurrentCP \<lparr>id' = None, chargingProfilePurpose' = None, stackLevel' = Some 1\<rparr>
      (profile 2 1 TX_DEFAULT_PROFILE)
   \<and> clearChargingProfiles
        \<lparr>id' = None, chargingProfilePurpose' = None, stackLevel' = Some 1\<rparr>
        (Some [profile 1 1 TX_PROFILE, profile 2 1 TX_DEFAULT_PROFILE])
      = (Some [profile 2 1 TX_DEFAULT_PROFILE], True)"
  by (simp add: clearChargingProfiles_def clearCallback_def clearCurrentCP_def splice1_def
      profile_def numeral_2_eq_2)

text \<open>
  A payload with stack level 0 and a purpose: \<^verbatim>\<open>!stackLevel\<close> holds for 0, so the test
  "stack level absent and same purpose" clears a profile of stack level 3.
\<close>

lemma clearChargingProfiles_stackLevel_zero:
  "clearChargingProfiles
      \<lparr>id' = None, chargingProfilePurpose' = Some TX_PROFILE,
       stackLevel' = Some 0\<rparr>
      (Some [profile 1 3 TX_PROFILE])
   = (Some [], True)"
  by (simp add: clearChargingProfiles_def clearCallback_def clearCurrentCP_def splice1_def
      profile_def)

end
